theory Spec2Isabelle
  imports Complex_Main
begin

section \<open>Python values and exceptions\<close>

text \<open>
  The program under study is \<^verbatim>\<open>models/code2vec/__main__.py\<close>: a training harness
  with a metric engine (\<^verbatim>\<open>exact_match\<close>, \<^verbatim>\<open>subtoken_match\<close>,
  \<^verbatim>\<open>averaged_subtoken_match\<close>), a training loop (\<^verbatim>\<open>_train\<close>) and a vector
  exporter (\<^verbatim>\<open>write_code_vectors\<close>).

  Python floats are idealised: a finite float is a real number and arithmetic on finite
  floats is exact real arithmetic (no rounding, no overflow to infinity). The one
  non-finite value kept is not-a-number, which \<^verbatim>\<open>np.average\<close> yields on an empty
  list and which makes every comparison false.
\<close>

datatype pyfloat = Fin real | NaN

fun flt :: "pyfloat \<Rightarrow> pyfloat \<Rightarrow> bool" where
  "flt (Fin a) (Fin b) = (a < b)"
| "flt _ _ = False"

fun fsub :: "pyfloat \<Rightarrow> pyfloat \<Rightarrow> pyfloat" where
  "fsub (Fin a) (Fin b) = Fin (a - b)"
| "fsub _ _ = NaN"

text \<open>
  Every exception the modelled code can raise is a value. \<open>LookupError\<close> stands for
  Python's \<^verbatim>\<open>KeyError\<close> and \<^verbatim>\<open>IndexError\<close> (its two subclasses), raised when a
  vocabulary table is indexed with an id it does not hold.
\<close>

datatype error =
    ZeroDivisionError
  | LookupError
  | TypeError
  | ValueError
  | OSError
  | TrialPruned

text \<open>Python's \<^verbatim>\<open>a / b\<close> on floats: a zero divisor raises, it does not give NaN.\<close>

definition truediv :: "real \<Rightarrow> real \<Rightarrow> error + real" where
  "truediv a b = (if b = 0 then Inl ZeroDivisionError else Inr (a / b))"

text \<open>\<^verbatim>\<open>np.average\<close> of a list of floats: the arithmetic mean, NaN on the empty list.\<close>

definition np_average :: "real list \<Rightarrow> pyfloat" where
  "np_average xs = (if xs = [] then NaN else Fin (sum_list xs / real (length xs)))"

section \<open>The metric engine\<close>

text \<open>
  \<^verbatim>\<open>label_vocab.itosubtokens\<close> is a table of the vocabulary, which is not part of
  this file of the repository: it is a parameter here, a partial map from label ids to
  their ordered subtoken lists.
\<close>

type_synonym label_vocab = "int \<rightharpoonup> string list"

definition itosubtokens :: "label_vocab \<Rightarrow> int \<Rightarrow> error + string list" where
  "itosubtokens v i = (case v i of None \<Rightarrow> Inl LookupError | Some ts \<Rightarrow> Inr ts)"

text \<open>
  The inner loop shared by both subtoken policies:
  \<^verbatim>\<open>for subtoken in exp_subtokens: if subtoken in actual_subtokens: match += 1\<close>.
  The counter is a float in \<^verbatim>\<open>subtoken_match\<close> and an int in
  \<^verbatim>\<open>averaged_subtoken_match\<close>.
\<close>

fun count_match :: "string list \<Rightarrow> string list \<Rightarrow> 'a::semiring_1 \<Rightarrow> 'a" where
  "count_match [] actual_subtokens m = m"
| "count_match (subtoken # rest) actual_subtokens m =
     count_match rest actual_subtokens
       (if subtoken \<in> set actual_subtokens then m + 1 else m)"

subsection \<open>\<^verbatim>\<open>subtoken_match\<close> (lines 308-329)\<close>

text \<open>
  The loop over \<^verbatim>\<open>zip(expected_labels.tolist(), actual_labels.tolist())\<close> with its
  three accumulators \<^verbatim>\<open>subtokens_match\<close>, \<^verbatim>\<open>subtokens_expected_count\<close> and
  \<^verbatim>\<open>subtokens_actual_count\<close>.
\<close>

fun subtoken_loop ::
  "label_vocab \<Rightarrow> (int \<times> int) list \<Rightarrow> real \<times> real \<times> real \<Rightarrow> error + (real \<times> real \<times> real)"
where
  "subtoken_loop v [] acc = Inr acc"
| "subtoken_loop v ((expected, actual) # rest)
       (subtokens_match, subtokens_expected_count, subtokens_actual_count) =
     (case itosubtokens v expected of
        Inl e \<Rightarrow> Inl e
      | Inr exp_subtokens \<Rightarrow>
          (case itosubtokens v actual of
             Inl e \<Rightarrow> Inl e
           | Inr actual_subtokens \<Rightarrow>
               subtoken_loop v rest
                 (count_match exp_subtokens actual_subtokens subtokens_match,
                  subtokens_expected_count + real (length exp_subtokens),
                  subtokens_actual_count + real (length actual_subtokens))))"

definition f1_of :: "real \<Rightarrow> real \<Rightarrow> real" where
  "f1_of precision recall =
     (if precision + recall > 0 then 2 * precision * recall / (precision + recall) else 0)"

definition subtoken_match ::
  "label_vocab \<Rightarrow> int list \<Rightarrow> int list \<Rightarrow> error + (real \<times> real \<times> real \<times> real)"
where
  "subtoken_match v expected_labels actual_labels =
     (case subtoken_loop v (zip expected_labels actual_labels) (0, 0, 0) of
        Inl e \<Rightarrow> Inl e
      | Inr (subtokens_match, subtokens_expected_count, subtokens_actual_count) \<Rightarrow>
          (case truediv subtokens_match
                  (subtokens_expected_count + subtokens_actual_count - subtokens_match) of
             Inl e \<Rightarrow> Inl e
           | Inr accuracy \<Rightarrow>
               (case truediv subtokens_match subtokens_actual_count of
                  Inl e \<Rightarrow> Inl e
                | Inr precision \<Rightarrow>
                    (case truediv subtokens_match subtokens_expected_count of
                       Inl e \<Rightarrow> Inl e
                     | Inr recall \<Rightarrow>
                         Inr (accuracy, precision, recall, f1_of precision recall)))))"

subsection \<open>\<^verbatim>\<open>averaged_subtoken_match\<close> (lines 277-305)\<close>

text \<open>
  One example's four scores. \<^verbatim>\<open>match\<close> and the lengths are Python ints; each
  division converts its divisor with \<^verbatim>\<open>float(...)\<close> and raises on zero.
\<close>

definition example_scores ::
  "string list \<Rightarrow> string list \<Rightarrow> error + (real \<times> real \<times> real \<times> real)"
where
  "example_scores exp_subtokens actual_subtokens =
     (let match = count_match exp_subtokens actual_subtokens (0::int) in
      case truediv (real_of_int match)
             (real_of_int (int (length exp_subtokens) + int (length actual_subtokens) - match)) of
        Inl e \<Rightarrow> Inl e
      | Inr acc \<Rightarrow>
          (case truediv (real_of_int match) (real (length exp_subtokens)) of
             Inl e \<Rightarrow> Inl e
           | Inr rec \<Rightarrow>
               (case truediv (real_of_int match) (real (length actual_subtokens)) of
                  Inl e \<Rightarrow> Inl e
                | Inr prec \<Rightarrow> Inr (acc, prec, rec, f1_of prec rec))))"

text \<open>
  The loop appends to the four lists \<^verbatim>\<open>subtokens_accuracy\<close>,
  \<^verbatim>\<open>subtokens_precision\<close>, \<^verbatim>\<open>subtokens_recall\<close>, \<^verbatim>\<open>subtokens_f1\<close>.
\<close>

fun averaged_loop ::
  "label_vocab \<Rightarrow> (int \<times> int) list \<Rightarrow> real list \<times> real list \<times> real list \<times> real list \<Rightarrow>
     error + (real list \<times> real list \<times> real list \<times> real list)"
where
  "averaged_loop v [] scores = Inr scores"
| "averaged_loop v ((expected, actual) # rest)
       (subtokens_accuracy, subtokens_precision, subtokens_recall, subtokens_f1) =
     (case itosubtokens v expected of
        Inl e \<Rightarrow> Inl e
      | Inr exp_subtokens \<Rightarrow>
          (case itosubtokens v actual of
             Inl e \<Rightarrow> Inl e
           | Inr actual_subtokens \<Rightarrow>
               (case example_scores exp_subtokens actual_subtokens of
                  Inl e \<Rightarrow> Inl e
                | Inr (acc, prec, rec, subtoken_f1) \<Rightarrow>
                    averaged_loop v rest
                      (subtokens_accuracy @ [acc], subtokens_precision @ [prec],
                       subtokens_recall @ [rec], subtokens_f1 @ [subtoken_f1]))))"

definition averaged_subtoken_match ::
  "label_vocab \<Rightarrow> int list \<Rightarrow> int list \<Rightarrow> error + (pyfloat \<times> pyfloat \<times> pyfloat \<times> pyfloat)"
where
  "averaged_subtoken_match v expected_labels actual_labels =
     (case averaged_loop v (zip expected_labels actual_labels) ([], [], [], []) of
        Inl e \<Rightarrow> Inl e
      | Inr (subtokens_accuracy, subtokens_precision, subtokens_recall, subtokens_f1) \<Rightarrow>
          Inr (np_average subtokens_accuracy, np_average subtokens_precision,
               np_average subtokens_recall, np_average subtokens_f1))"

subsection \<open>\<^verbatim>\<open>exact_match\<close> (lines 269-274)\<close>

text \<open>
  Modelled from the spec: \<^verbatim>\<open>accuracy_score\<close> is scikit-learn's, not code under
  \<^verbatim>\<open>src/\<close>. The spec calls it the standard multiclass exact-match rate over the whole
  batch; the library computes it as the mean of the element-wise equality of the two
  label arrays, and refuses arrays of different lengths with a \<^verbatim>\<open>ValueError\<close>.
\<close>

definition accuracy_score :: "int list \<Rightarrow> int list \<Rightarrow> error + pyfloat" where
  "accuracy_score y_true y_pred =
     (if length y_true \<noteq> length y_pred then Inl ValueError
      else Inr (np_average (map (\<lambda>(t, p). if t = p then 1 else 0) (zip y_true y_pred))))"

text \<open>
  The three per-class scores (\<^verbatim>\<open>precision_score\<close>, \<^verbatim>\<open>recall_score\<close>,
  \<^verbatim>\<open>f1_score\<close> with \<^verbatim>\<open>average=None\<close>) are library calls too; each returns an
  array of scores or raises. They are parameters of the model.
\<close>

record sklearn =
  precision_score :: "int list \<Rightarrow> int list \<Rightarrow> error + real list"
  recall_score :: "int list \<Rightarrow> int list \<Rightarrow> error + real list"
  f1_score :: "int list \<Rightarrow> int list \<Rightarrow> error + real list"

text \<open>The subscript \<^verbatim>\<open>[0]\<close> on a returned array.\<close>

definition first_score :: "error + real list \<Rightarrow> error + real" where
  "first_score r =
     (case r of
        Inl e \<Rightarrow> Inl e
      | Inr [] \<Rightarrow> Inl LookupError
      | Inr (x # _) \<Rightarrow> Inr x)"

definition exact_match ::
  "sklearn \<Rightarrow> int list \<Rightarrow> int list \<Rightarrow> error + (pyfloat \<times> real \<times> real \<times> real)"
where
  "exact_match sk expected_labels actual_labels =
     (case first_score (precision_score sk expected_labels actual_labels) of
        Inl e \<Rightarrow> Inl e
      | Inr precision \<Rightarrow>
          (case first_score (recall_score sk expected_labels actual_labels) of
             Inl e \<Rightarrow> Inl e
           | Inr recall \<Rightarrow>
               (case first_score (f1_score sk expected_labels actual_labels) of
                  Inl e \<Rightarrow> Inl e
                | Inr f1 \<Rightarrow>
                    (case accuracy_score expected_labels actual_labels of
                       Inl e \<Rightarrow> Inl e
                     | Inr accuracy \<Rightarrow> Inr (accuracy, precision, recall, f1)))))"

section \<open>The vector exporter\<close>

text \<open>
  The file system, as far as the exporter and the checkpoint touch it: the lines of
  each file, the handles that are open (by path, one entry per handle), and the paths
  on which \<^verbatim>\<open>open\<close> for writing raises \<^verbatim>\<open>OSError\<close>. Lines are kept structured
  (the formatting of floats is not modelled).
\<close>

datatype line =
    HeaderLine nat nat
  | VectorLine string "real list"
  | ResultLine int bool string string real
  | ModelBlob nat

record world =
  files :: "string \<rightharpoonup> line list"
  open_handles :: "string list"
  unwritable :: "string list"

datatype open_mode = ModeW | ModeA

definition py_open :: "string \<Rightarrow> open_mode \<Rightarrow> world \<Rightarrow> error + world" where
  "py_open p m w =
     (if p \<in> set (unwritable w) then Inl OSError
      else Inr (w\<lparr>files := (files w)(p \<mapsto>
                     (case m of
                        ModeW \<Rightarrow> []
                      | ModeA \<Rightarrow> (case files w p of None \<Rightarrow> [] | Some ls \<Rightarrow> ls))),
                  open_handles := p # open_handles w\<rparr>))"

definition py_write :: "string \<Rightarrow> line \<Rightarrow> world \<Rightarrow> world" where
  "py_write p l w =
     w\<lparr>files := (files w)(p \<mapsto> (case files w p of None \<Rightarrow> [l] | Some ls \<Rightarrow> ls @ [l]))\<rparr>"

definition py_close :: "string \<Rightarrow> world \<Rightarrow> world" where
  "py_close p w = w\<lparr>open_handles := remove1 p (open_handles w)\<rparr>"

text \<open>
  What the data loader and the model's forward pass yield for one example of a batch:
  \<^verbatim>\<open>id[i]\<close>, \<^verbatim>\<open>label[i]\<close>, \<^verbatim>\<open>code_vector[i]\<close>, \<^verbatim>\<open>preds_label[i]\<close> and
  \<^verbatim>\<open>preds_prob[i]\<close>. Both are external; their output is a parameter.
\<close>

record export_row =
  ex_id :: int
  ex_label :: int
  ex_vec :: "real list"
  ex_pred_label :: int
  ex_pred_prob :: real

text \<open>The loop \<^verbatim>\<open>for i in range(len(starts))\<close> of one batch (lines 389-399).\<close>

fun write_rows ::
  "(int \<rightharpoonup> string) \<Rightarrow> string \<Rightarrow> string option \<Rightarrow> export_row list \<Rightarrow> world \<Rightarrow>
     world \<times> error option"
where
  "write_rows itos fv fr [] w = (w, None)"
| "write_rows itos fv fr (r # rs) w =
     (case itos (ex_label r) of
        None \<Rightarrow> (w, Some LookupError)
      | Some label_name \<Rightarrow>
          (let w1 = py_write fv (VectorLine label_name (ex_vec r)) w in
           case fr of
             None \<Rightarrow> write_rows itos fv fr rs w1
           | Some test_result_file \<Rightarrow>
               (case itos (ex_pred_label r) of
                  None \<Rightarrow> (w1, Some LookupError)
                | Some pred_name \<Rightarrow>
                    write_rows itos fv fr rs
                      (py_write test_result_file
                         (ResultLine (ex_id r) (label_name = pred_name) label_name pred_name
                            (ex_pred_prob r)) w1))))"

text \<open>The loop over the batches of the data loader (line 379).\<close>

fun write_batches ::
  "(int \<rightharpoonup> string) \<Rightarrow> string \<Rightarrow> string option \<Rightarrow> export_row list list \<Rightarrow> world \<Rightarrow>
     world \<times> error option"
where
  "write_batches itos fv fr [] w = (w, None)"
| "write_batches itos fv fr (sample_batched # rest) w =
     (case write_rows itos fv fr sample_batched w of
        (w1, Some e) \<Rightarrow> (w1, Some e)
      | (w1, None) \<Rightarrow> write_batches itos fv fr rest w1)"

text \<open>
  \<^verbatim>\<open>write_code_vectors\<close> (lines 369-402). The result file is opened by a plain
  \<^verbatim>\<open>open\<close> and closed by \<^verbatim>\<open>fr.close()\<close> after the \<^verbatim>\<open>with\<close> block of the
  vector file; the \<^verbatim>\<open>with\<close> block closes the vector file on every way out of it.
\<close>

definition write_code_vectors ::
  "(int \<rightharpoonup> string) \<Rightarrow> export_row list list \<Rightarrow> string \<Rightarrow> open_mode \<Rightarrow> string option \<Rightarrow>
     world \<Rightarrow> world \<times> error option"
where
  "write_code_vectors itos data_loader vector_file mode test_result_file w =
     (case (case test_result_file of
              None \<Rightarrow> Inr w
            | Some p \<Rightarrow> py_open p ModeW w) of
        Inl e \<Rightarrow> (w, Some e)
      | Inr w1 \<Rightarrow>
          (case py_open vector_file mode w1 of
             Inl e \<Rightarrow> (w1, Some e)
           | Inr w2 \<Rightarrow>
               (case write_batches itos vector_file test_result_file data_loader w2 of
                  (w3, Some e) \<Rightarrow> (py_close vector_file w3, Some e)
                | (w3, None) \<Rightarrow>
                    (let w4 = py_close vector_file w3 in
                     case test_result_file of
                       None \<Rightarrow> (w4, None)
                     | Some p \<Rightarrow> (py_close p w4, None)))))"

section \<open>The training loop\<close>

text \<open>\<^verbatim>\<open>DISALLOW_WRITE = True\<close> (line 29).\<close>

definition DISALLOW_WRITE :: bool where
  "DISALLOW_WRITE = True"

text \<open>
  The parts of \<^verbatim>\<open>args\<close>, \<^verbatim>\<open>reader\<close> and \<^verbatim>\<open>option\<close> that \<^verbatim>\<open>_train\<close> reads.
  \<^verbatim>\<open>args.env\<close> only selects where messages go (\<^verbatim>\<open>print\<close>, the logger, a
  tensorboard writer); the model keeps one console for \<^verbatim>\<open>print\<close> and the logger, and
  no tensorboard writer.
\<close>

record args_t =
  max_epoch :: nat
  vectors_path :: string
  test_result_path :: string
  model_path :: string

record reader_t =
  label_itos :: "int \<rightharpoonup> string"
  items_len :: nat

record option_t =
  encode_size :: nat

text \<open>
  What \<^verbatim>\<open>test(...)\<close> returns for one split: the loss and four scores. The scores are
  \<^verbatim>\<open>None\<close> when \<^verbatim>\<open>args.eval_method\<close> is none of the three policies.
\<close>

record metrics =
  loss :: pyfloat
  accuracy :: "pyfloat option"
  precision :: "pyfloat option"
  recall :: "pyfloat option"
  f1_m :: "pyfloat option"

text \<open>
  What one epoch computes through the model, the optimizer and the data set, all of
  them external: the summed training loss, the metrics of the dev and test splits,
  the rows an export of the train and test loaders would yield, and the model's
  parameters (an opaque number).
\<close>

record epoch_obs =
  train_loss :: pyfloat
  dev :: metrics
  test :: metrics
  train_export :: "export_row list list"
  test_export :: "export_row list list"
  state_dict :: nat

text \<open>
  Modelled from the spec: the Trial handle is the search library's, not code under
  \<^verbatim>\<open>src/\<close>. It exposes \<^verbatim>\<open>report(value, step)\<close> and \<^verbatim>\<open>should_prune(step)\<close>;
  the pruning decision may depend on everything reported so far and on the step.
\<close>

record trial =
  reports :: "(pyfloat \<times> nat) list"
  pruner :: "(pyfloat \<times> nat) list \<Rightarrow> nat \<Rightarrow> bool"

definition trial_report :: "pyfloat \<Rightarrow> nat \<Rightarrow> trial \<Rightarrow> trial" where
  "trial_report v step t = t\<lparr>reports := reports t @ [(v, step)]\<rparr>"

definition trial_should_prune :: "nat \<Rightarrow> trial \<Rightarrow> bool" where
  "trial_should_prune step t = pruner t (reports t) step"

text \<open>The messages of the console, structured.\<close>

datatype out_line =
    EpochLine nat
  | MetricLine string "pyfloat option"
  | SplitLine string
  | BestF1Line pyfloat
  | EarlyStopLine pyfloat nat

text \<open>
  The state of a run of \<^verbatim>\<open>_train\<close>: its local variables \<^verbatim>\<open>f1\<close>, \<^verbatim>\<open>best_f1\<close>,
  \<^verbatim>\<open>last_loss\<close>, \<^verbatim>\<open>last_accuracy\<close>, \<^verbatim>\<open>bad_count\<close> and \<^verbatim>\<open>epoch\<close> (unbound
  before the first iteration), the trial it was handed, the console and the file system.
\<close>

record run_state =
  f1 :: pyfloat
  best_f1 :: "pyfloat option"
  last_loss :: "pyfloat option"
  last_accuracy :: "pyfloat option"
  bad_count :: nat
  epoch :: "nat option"
  trial_h :: "trial option"
  console :: "out_line list"
  fs :: world

datatype flow = Continue | Break

text \<open>The prints of lines 140-153.\<close>

definition metric_lines :: "nat \<Rightarrow> epoch_obs \<Rightarrow> out_line list" where
  "metric_lines ep obs =
     [EpochLine ep,
      MetricLine ''train_loss'' (Some (train_loss obs)),
      MetricLine ''dev_loss'' (Some (loss (dev obs))),
      MetricLine ''test_loss'' (Some (loss (test obs))),
      SplitLine ''Metrics for dev split:'',
      MetricLine ''accuracy'' (accuracy (dev obs)),
      MetricLine ''precision'' (precision (dev obs)),
      MetricLine ''recall'' (recall (dev obs)),
      MetricLine ''f1'' (f1_m (dev obs)),
      SplitLine ''Metrics for test split:'',
      MetricLine ''accuracy'' (accuracy (test obs)),
      MetricLine ''precision'' (precision (test obs)),
      MetricLine ''recall'' (recall (test obs)),
      MetricLine ''f1'' (f1_m (test obs))]"

text \<open>
  Lines 163-167: with a trial, report \<^verbatim>\<open>1.0 - f1\<close> at this epoch and raise
  \<^verbatim>\<open>TrialPruned\<close> when the trial says so.
\<close>

definition report_step :: "nat \<Rightarrow> run_state \<Rightarrow> run_state \<times> error option" where
  "report_step ep s =
     (case trial_h s of
        None \<Rightarrow> (s, None)
      | Some t \<Rightarrow>
          (let intermediate_value = fsub (Fin 1) (f1 s);
               t1 = trial_report intermediate_value ep t;
               s1 = s\<lparr>trial_h := Some t1\<rparr>
           in if trial_should_prune ep t1 then (s1, Some TrialPruned) else (s1, None)))"

text \<open>\<^verbatim>\<open>os.path.join\<close> of a directory and a file name.\<close>

definition path_join :: "string \<Rightarrow> string \<Rightarrow> string" where
  "path_join a b =
     (if a = [] then b else if last a = CHR ''/'' then a @ b else a @ ''/'' @ b)"

text \<open>\<^verbatim>\<open>torch.save\<close>: opens the file, writes the blob and closes it.\<close>

definition torch_save :: "nat \<Rightarrow> string \<Rightarrow> world \<Rightarrow> world \<times> error option" where
  "torch_save blob p w =
     (if p \<in> set (unwritable w) then (w, Some OSError)
      else (w\<lparr>files := (files w)(p \<mapsto> [ModelBlob blob])\<rparr>, None))"

text \<open>
  Lines 183-193, the body of \<^verbatim>\<open>if trial is None and not DISALLOW_WRITE\<close>: the header
  of the vector file, the two exports and the checkpoint.
\<close>

definition persist ::
  "args_t \<Rightarrow> reader_t \<Rightarrow> option_t \<Rightarrow> epoch_obs \<Rightarrow> world \<Rightarrow> world \<times> error option"
where
  "persist args reader opt obs w =
     (let vector_file = vectors_path args in
      case py_open vector_file ModeW w of
        Inl e \<Rightarrow> (w, Some e)
      | Inr w1 \<Rightarrow>
          (let w2 = py_close vector_file
                      (py_write vector_file (HeaderLine (items_len reader) (encode_size opt)) w1)
           in case write_code_vectors (label_itos reader) (train_export obs)
                     vector_file ModeA None w2 of
                (w3, Some e) \<Rightarrow> (w3, Some e)
              | (w3, None) \<Rightarrow>
                  (case write_code_vectors (label_itos reader) (test_export obs)
                          vector_file ModeA (Some (test_result_path args)) w3 of
                     (w4, Some e) \<Rightarrow> (w4, Some e)
                   | (w4, None) \<Rightarrow>
                       torch_save (state_dict obs)
                         (path_join (model_path args) ''code2vec.model'') w4)))"

text \<open>The test \<^verbatim>\<open>best_f1 is None or best_f1 < f1\<close> of line 172.\<close>

definition improved :: "run_state \<Rightarrow> bool" where
  "improved s = (case best_f1 s of None \<Rightarrow> True | Some b \<Rightarrow> flt b (f1 s))"

text \<open>Lines 172-193, the checkpoint rule.\<close>

definition checkpoint_step ::
  "args_t \<Rightarrow> reader_t \<Rightarrow> option_t \<Rightarrow> epoch_obs \<Rightarrow> run_state \<Rightarrow> run_state \<times> error option"
where
  "checkpoint_step args reader opt obs s =
     (if improved s then
        (let s1 = s\<lparr>console := console s @ [BestF1Line (f1 s)], best_f1 := Some (f1 s)\<rparr> in
         if trial_h s1 = None \<and> \<not> DISALLOW_WRITE then
           (case persist args reader opt obs (fs s1) of
              (w, r) \<Rightarrow> (s1\<lparr>fs := w\<rparr>, r))
         else (s1, None))
      else (s, None))"

text \<open>
  The test of lines 195-198, evaluated left to right. Comparing a float with
  \<^verbatim>\<open>None\<close> raises \<^verbatim>\<open>TypeError\<close>; a comparison with NaN is false.
\<close>

definition early_stop_cond :: "epoch_obs \<Rightarrow> run_state \<Rightarrow> error + bool" where
  "early_stop_cond obs s =
     (case last_loss s of
        None \<Rightarrow> Inr True
      | Some ll \<Rightarrow>
          if flt (train_loss obs) ll then Inr True
          else (case last_accuracy s of
                  None \<Rightarrow> Inr True
                | Some la \<Rightarrow>
                    (case accuracy (dev obs) of
                       None \<Rightarrow> Inl TypeError
                     | Some dev_accuracy \<Rightarrow> Inr (flt la dev_accuracy))))"

text \<open>Lines 195-208, the early-stop rule.\<close>

definition early_stop_step :: "epoch_obs \<Rightarrow> run_state \<Rightarrow> run_state \<times> (error + flow)" where
  "early_stop_step obs s =
     (case early_stop_cond obs s of
        Inl e \<Rightarrow> (s, Inl e)
      | Inr c \<Rightarrow>
          (let s1 = (if c then s\<lparr>last_loss := Some (train_loss obs),
                                 last_accuracy := accuracy (dev obs),
                                 bad_count := 0\<rparr>
                     else s\<lparr>bad_count := bad_count s + 1\<rparr>)
           in if bad_count s1 > 10
              then (s1\<lparr>console := console s1 @ [EarlyStopLine (train_loss obs) (bad_count s1)]\<rparr>,
                    Inr Break)
              else (s1, Inr Continue)))"

text \<open>One iteration of \<^verbatim>\<open>for epoch in range(args.max_epoch)\<close> (lines 105-208).\<close>

definition epoch_body ::
  "args_t \<Rightarrow> reader_t \<Rightarrow> option_t \<Rightarrow> epoch_obs \<Rightarrow> nat \<Rightarrow> run_state \<Rightarrow>
     run_state \<times> (error + flow)"
where
  "epoch_body args reader opt obs ep s =
     (let s0 = s\<lparr>epoch := Some ep, console := console s @ metric_lines ep obs\<rparr> in
      case report_step ep s0 of
        (s1, Some e) \<Rightarrow> (s1, Inl e)
      | (s1, None) \<Rightarrow>
          (case checkpoint_step args reader opt obs s1 of
             (s2, Some e) \<Rightarrow> (s2, Inl e)
           | (s2, None) \<Rightarrow> early_stop_step obs s2))"

text \<open>
  The loop, over the epochs still to run. An exception ends it with the state reached;
  so does \<^verbatim>\<open>break\<close>.
\<close>

fun train_loop ::
  "args_t \<Rightarrow> reader_t \<Rightarrow> option_t \<Rightarrow> (nat \<Rightarrow> epoch_obs) \<Rightarrow> nat list \<Rightarrow> run_state \<Rightarrow>
     run_state \<times> error option"
where
  "train_loop args reader opt obs [] s = (s, None)"
| "train_loop args reader opt obs (ep # rest) s =
     (case epoch_body args reader opt (obs ep) ep s of
        (s1, Inl e) \<Rightarrow> (s1, Some e)
      | (s1, Inr Break) \<Rightarrow> (s1, None)
      | (s1, Inr Continue) \<Rightarrow> train_loop args reader opt obs rest s1)"

text \<open>The local variables as lines 93-97 initialise them.\<close>

definition init_state :: "trial option \<Rightarrow> world \<Rightarrow> run_state" where
  "init_state tr w =
     \<lparr>f1 = Fin 0, best_f1 = None, last_loss = None, last_accuracy = None, bad_count = 0,
      epoch = None, trial_h = tr, console = [], fs = w\<rparr>"

text \<open>
  \<^verbatim>\<open>_train\<close> (lines 90-214): the state at the end of the run, and either the exception
  that left it or the value returned, \<^verbatim>\<open>1.0 - f1\<close>.
\<close>

definition u_train ::
  "args_t \<Rightarrow> reader_t \<Rightarrow> option_t \<Rightarrow> (nat \<Rightarrow> epoch_obs) \<Rightarrow> trial option \<Rightarrow> world \<Rightarrow>
     run_state \<times> (error + pyfloat)"
where
  "u_train args reader opt obs tr w =
     (case train_loop args reader opt obs [0..<max_epoch args] (init_state tr w) of
        (s, Some e) \<Rightarrow> (s, Inl e)
      | (s, None) \<Rightarrow> (s, Inr (fsub (Fin 1) (f1 s))))"

section \<open>The quantities the specification names\<close>

text \<open>
  The definitions named \<open>spec_...\<close> follow the words of the specification, not the
  code; the theorems below compare them with the code's functions. The others read off
  a run what a claim speaks of (the epochs started, the best-F1 messages) or state a
  condition of a scenario.
\<close>

text \<open>The subtoken list of a label id (empty for an id the vocabulary lacks).\<close>

definition spec_subtokens :: "label_vocab \<Rightarrow> int \<Rightarrow> string list" where
  "spec_subtokens v i = (case v i of None \<Rightarrow> [] | Some ts \<Rightarrow> ts)"

text \<open>
  Over all examples: the expected subtokens that are members of the predicted list
  (no deduplication), and the two totals of list lengths.
\<close>

definition spec_matches :: "label_vocab \<Rightarrow> int list \<Rightarrow> int list \<Rightarrow> nat" where
  "spec_matches v expected predicted =
     (\<Sum>(e, p)\<leftarrow>zip expected predicted.
        length [s \<leftarrow> spec_subtokens v e. s \<in> set (spec_subtokens v p)])"

definition spec_expected_total :: "label_vocab \<Rightarrow> int list \<Rightarrow> int list \<Rightarrow> nat" where
  "spec_expected_total v expected predicted =
     (\<Sum>(e, p)\<leftarrow>zip expected predicted. length (spec_subtokens v e))"

definition spec_predicted_total :: "label_vocab \<Rightarrow> int list \<Rightarrow> int list \<Rightarrow> nat" where
  "spec_predicted_total v expected predicted =
     (\<Sum>(e, p)\<leftarrow>zip expected predicted. length (spec_subtokens v p))"

text \<open>Accuracy, precision, recall and F1 of the micro (corpus-level) policy.\<close>

definition spec_micro ::
  "label_vocab \<Rightarrow> int list \<Rightarrow> int list \<Rightarrow> real \<times> real \<times> real \<times> real"
where
  "spec_micro v expected predicted =
     (let matches = real (spec_matches v expected predicted);
          expected_total = real (spec_expected_total v expected predicted);
          predicted_total = real (spec_predicted_total v expected predicted);
          accuracy = matches / (expected_total + predicted_total - matches);
          precision = matches / predicted_total;
          recall = matches / expected_total
      in (accuracy, precision, recall,
          if precision + recall > 0 then 2 * precision * recall / (precision + recall) else 0))"

text \<open>
  The exact-match rate in the specification's words: the number of positions where
  expected equals predicted, divided by the sequence length.
\<close>

definition spec_exact_accuracy :: "int list \<Rightarrow> int list \<Rightarrow> real" where
  "spec_exact_accuracy expected predicted =
     real (length [i \<leftarrow> [0..<length expected]. expected ! i = predicted ! i])
       / real (length expected)"

text \<open>The epochs whose first message (\<^verbatim>\<open>epoch N\<close>) is on the console, in order.\<close>

fun epoch_lines :: "out_line list \<Rightarrow> nat list" where
  "epoch_lines [] = []"
| "epoch_lines (EpochLine e # ls) = e # epoch_lines ls"
| "epoch_lines (_ # ls) = epoch_lines ls"

text \<open>No trial, or a trial whose pruner never asks to prune.\<close>

definition never_prunes :: "trial option \<Rightarrow> bool" where
  "never_prunes tr = (case tr of None \<Rightarrow> True | Some t \<Rightarrow> \<forall>h k. \<not> pruner t h k)"

text \<open>
  The improvement test of the early-stop rule in the specification's words:
  \<open>last_loss\<close> unset, or the training loss below it, or \<open>last_accuracy\<close> unset, or
  the dev accuracy above it.
\<close>

definition spec_any_improvement :: "epoch_obs \<Rightarrow> run_state \<Rightarrow> bool" where
  "spec_any_improvement ob s =
     (last_loss s = None
      \<or> (case last_loss s of None \<Rightarrow> False | Some ll \<Rightarrow> flt (train_loss ob) ll)
      \<or> last_accuracy s = None
      \<or> (case (last_accuracy s, accuracy (dev ob)) of
            (Some la, Some da) \<Rightarrow> flt la da
          | _ \<Rightarrow> False))"

text \<open>
  Epoch \<open>i\<close> is strictly worse than the epoch before it: its training loss is
  higher and its dev accuracy (a number) is lower.
\<close>

definition worsening :: "(nat \<Rightarrow> epoch_obs) \<Rightarrow> nat \<Rightarrow> bool" where
  "worsening obs i =
     (flt (train_loss (obs (i - 1))) (train_loss (obs i))
      \<and> (case (accuracy (dev (obs i)), accuracy (dev (obs (i - 1)))) of
            (Some a, Some b) \<Rightarrow> flt a b
          | _ \<Rightarrow> False))"

text \<open>
  The objective of an epoch in the specification's words: 1 minus the F1 that the
  epoch's evaluation of the dev split computed.
\<close>

definition spec_objective :: "epoch_obs \<Rightarrow> pyfloat option" where
  "spec_objective ob = map_option (fsub (Fin 1)) (f1_m (dev ob))"

text \<open>The values that the console's best-F1 messages carry, in order.\<close>

fun best_f1_lines :: "out_line list \<Rightarrow> pyfloat list" where
  "best_f1_lines [] = []"
| "best_f1_lines (BestF1Line v # ls) = v # best_f1_lines ls"
| "best_f1_lines (_ # ls) = best_f1_lines ls"

section \<open>Inputs of the scenarios\<close>

text \<open>The vocabulary of the specification's scenario: label 0 is A, label 1 is B.\<close>

definition example_vocab :: label_vocab where
  "example_vocab = [0 \<mapsto> [''get'', ''x''], 1 \<mapsto> [''set'', ''x'']]"

text \<open>A vocabulary with a label whose subtoken list repeats a subtoken.\<close>

definition dup_vocab :: label_vocab where
  "dup_vocab = [0 \<mapsto> [''x'', ''x''], 1 \<mapsto> [''x'']]"

text \<open>A vocabulary with a label whose subtoken list is empty.\<close>

definition empty_vocab :: label_vocab where
  "empty_vocab = [0 \<mapsto> [], 1 \<mapsto> [''x'']]"

text \<open>
  The per-class scores of the scenario expected [A, A, B], predicted [A, B, B], as the
  three library calls return them (one score per class).
\<close>

definition example_sklearn :: sklearn where
  "example_sklearn =
     \<lparr>precision_score = (\<lambda>y_true y_pred. Inr [1, 1 / 2]),
      recall_score = (\<lambda>y_true y_pred. Inr [1 / 2, 1]),
      f1_score = (\<lambda>y_true y_pred. Inr [2 / 3, 2 / 3])\<rparr>"

text \<open>
  Inputs of the exporter: one example of label 0, a file system on which the vector file
  cannot be opened, and one with no restriction.
\<close>

definition leak_row :: export_row where
  "leak_row = \<lparr>ex_id = 7, ex_label = 0, ex_vec = [1 / 2], ex_pred_label = 0, ex_pred_prob = 1\<rparr>"

definition locked_world :: world where
  "locked_world = \<lparr>files = Map.empty, open_handles = [], unwritable = [''vectors.txt'']\<rparr>"

definition clean_world :: world where
  "clean_world = \<lparr>files = Map.empty, open_handles = [], unwritable = []\<rparr>"

text \<open>
  A run for the scenarios: fifteen epochs at most, and epoch \<open>i\<close> with training loss
  \<open>i\<close> and dev accuracy \<open>1 - i/100\<close>.
\<close>

definition demo_args :: args_t where
  "demo_args = \<lparr>max_epoch = 15, vectors_path = ''vectors.txt'',
                 test_result_path = ''result.txt'', model_path = ''model''\<rparr>"

definition demo_reader :: reader_t where
  "demo_reader = \<lparr>label_itos = [0 \<mapsto> ''A'', 1 \<mapsto> ''B''], items_len = 3\<rparr>"

definition demo_opt :: option_t where
  "demo_opt = \<lparr>encode_size = 1\<rparr>"

definition demo_metrics :: "real \<Rightarrow> metrics" where
  "demo_metrics a =
     \<lparr>loss = Fin 1, accuracy = Some (Fin a), precision = Some (Fin a),
      recall = Some (Fin a), f1_m = Some (Fin a)\<rparr>"

definition rising_obs :: "nat \<Rightarrow> epoch_obs" where
  "rising_obs i =
     \<lparr>train_loss = Fin (real i), dev = demo_metrics (1 - real i / 100),
      test = demo_metrics (1 - real i / 100),
      train_export = [[leak_row]], test_export = [[leak_row]], state_dict = i\<rparr>"

text \<open>A trial that never prunes and one that always does, both with nothing reported yet.\<close>

definition quiet_trial :: trial where
  "quiet_trial = \<lparr>reports = [], pruner = (\<lambda>h k. False)\<rparr>"

definition always_trial :: trial where
  "always_trial = \<lparr>reports = [], pruner = (\<lambda>h k. True)\<rparr>"

text \<open>A trial whose pruner prunes at every step from step 1 on, and not at step 0.\<close>

definition late_trial :: trial where
  "late_trial = \<lparr>reports = [], pruner = (\<lambda>h k. 1 \<le> k)\<rparr>"

text \<open>
  Two epochs whose dev F1 rises from 1/2 to 4/5 (and whose training loss falls).
\<close>

definition improving_obs :: "nat \<Rightarrow> epoch_obs" where
  "improving_obs i =
     \<lparr>train_loss = Fin (10 - real i),
      dev = demo_metrics (if i = 0 then 1 / 2 else 4 / 5),
      test = demo_metrics (if i = 0 then 1 / 2 else 4 / 5),
      train_export = [[leak_row]], test_export = [[leak_row]], state_dict = i\<rparr>"

definition two_epochs :: args_t where
  "two_epochs = demo_args\<lparr>max_epoch := 2\<rparr>"

section \<open>Verified properties\<close>

subsection \<open>Subtoken matching, corpus level\<close>

lemma count_match_filter:
  "count_match es acts m = m + of_nat (length [s \<leftarrow> es. s \<in> set acts])"
  by (induction es arbitrary: m) (simp_all add: add.assoc add.commute)

lemma zip_in_dom:
  assumes "set expected \<union> set predicted \<subseteq> dom v"
  shows "\<forall>(e, a) \<in> set (zip expected predicted). e \<in> dom v \<and> a \<in> dom v"
  using assms by (auto dest: set_zip_leftD set_zip_rightD)

lemma subtoken_loop_sums:
  assumes "\<forall>(e, a) \<in> set zs. e \<in> dom v \<and> a \<in> dom v"
  shows "subtoken_loop v zs (m, ec, ac) =
     Inr (m + real (\<Sum>(e, p)\<leftarrow>zs. length [s \<leftarrow> spec_subtokens v e. s \<in> set (spec_subtokens v p)]),
          ec + real (\<Sum>(e, p)\<leftarrow>zs. length (spec_subtokens v e)),
          ac + real (\<Sum>(e, p)\<leftarrow>zs. length (spec_subtokens v p)))"
  using assms
proof (induction zs arbitrary: m ec ac)
  case Nil
  then show ?case by simp
next
  case (Cons z zs)
  obtain e a where z: "z = (e, a)" by (cases z)
  from Cons.prems z obtain es acts where v: "v e = Some es" "v a = Some acts"
    by auto
  have rest: "\<forall>(e, a) \<in> set zs. e \<in> dom v \<and> a \<in> dom v"
    using Cons.prems by simp
  show ?case
    by (simp add: z v itosubtokens_def spec_subtokens_def Cons.IH [OF rest] count_match_filter
        add.assoc)
qed

lemma matches_le_expected:
  "(\<Sum>(e, p)\<leftarrow>zs. length [s \<leftarrow> spec_subtokens v e. s \<in> set (spec_subtokens v p)])
     \<le> (\<Sum>(e, p)\<leftarrow>zs. length (spec_subtokens v e))"
  by (induction zs) (auto intro: add_mono)

text \<open>
  Claim C3. For label sequences of equal length whose ids are all in the vocabulary and
  whose expected and predicted totals are not zero, \<open>subtoken_match\<close> returns (it
  raises nothing) the accuracy, precision, recall and F1 the specification gives:
  matches counted by membership without deduplication, accuracy
  matches / (expected_total + predicted_total - matches), precision
  matches / predicted_total, recall matches / expected_total, and F1
  2 * precision * recall / (precision + recall) when precision + recall is positive,
  else 0. On expected [A, A, B], predicted [A, B, B] with A = [get, x] and
  B = [set, x] it returns 5/7, 5/6, 5/6, 5/6. Floats are read as reals.
\<close>

theorem subtoken_match_micro:
  assumes len: "length expected = length predicted"
    and dom: "set expected \<union> set predicted \<subseteq> dom v"
    and et: "spec_expected_total v expected predicted \<noteq> 0"
    and pt: "spec_predicted_total v expected predicted \<noteq> 0"
  shows "subtoken_match v expected predicted = Inr (spec_micro v expected predicted)
       \<and> subtoken_match example_vocab [0, 0, 1] [0, 1, 1] = Inr (5 / 7, 5 / 6, 5 / 6, 5 / 6)"
proof
  have loop: "subtoken_loop v (zip expected predicted) (0, 0, 0) =
      Inr (real (spec_matches v expected predicted),
           real (spec_expected_total v expected predicted),
           real (spec_predicted_total v expected predicted))"
    using subtoken_loop_sums [OF zip_in_dom [OF dom], of 0 0 0]
    by (simp add: spec_matches_def spec_expected_total_def spec_predicted_total_def)
  have le: "spec_matches v expected predicted \<le> spec_expected_total v expected predicted"
    unfolding spec_matches_def spec_expected_total_def by (rule matches_le_expected)
  have denom: "real (spec_expected_total v expected predicted)
      + real (spec_predicted_total v expected predicted)
      - real (spec_matches v expected predicted) \<noteq> 0"
    using le pt by linarith
  show "subtoken_match v expected predicted = Inr (spec_micro v expected predicted)"
    using denom et pt
    by (simp add: subtoken_match_def loop truediv_def spec_micro_def f1_of_def Let_def)
  show "subtoken_match example_vocab [0, 0, 1] [0, 1, 1] = Inr (5 / 7, 5 / 6, 5 / 6, 5 / 6)"
    by (simp add: example_vocab_def subtoken_match_def itosubtokens_def truediv_def f1_of_def)
qed

theorem subtoken_match_micro_witness:
  "length [0, 0, 1 :: int] = length [0, 1, 1 :: int]
   \<and> spec_expected_total example_vocab [0, 0, 1] [0, 1, 1] = 6
   \<and> spec_predicted_total example_vocab [0, 0, 1] [0, 1, 1] = 6
   \<and> spec_matches example_vocab [0, 0, 1] [0, 1, 1] = 5
   \<and> subtoken_match example_vocab [0, 0, 1] [0, 1, 1]
        = Inr (spec_micro example_vocab [0, 0, 1] [0, 1, 1])
   \<and> spec_micro example_vocab [0, 0, 1] [0, 1, 1] = (5 / 7, 5 / 6, 5 / 6, 5 / 6)"
proof -
  have d: "set [0, 0, 1] \<union> set [0, 1, 1] \<subseteq> dom example_vocab"
    by (simp add: example_vocab_def)
  have e: "spec_expected_total example_vocab [0, 0, 1] [0, 1, 1] = 6"
    by (simp add: spec_expected_total_def spec_subtokens_def example_vocab_def)
  have p: "spec_predicted_total example_vocab [0, 0, 1] [0, 1, 1] = 6"
    by (simp add: spec_predicted_total_def spec_subtokens_def example_vocab_def)
  have m: "spec_matches example_vocab [0, 0, 1] [0, 1, 1] = 5"
    by (simp add: spec_matches_def spec_subtokens_def example_vocab_def)
  have s: "spec_micro example_vocab [0, 0, 1] [0, 1, 1] = (5 / 7, 5 / 6, 5 / 6, 5 / 6)"
    by (simp add: spec_micro_def e p m Let_def)
  show ?thesis
    using subtoken_match_micro [of "[0, 0, 1]" "[0, 1, 1]" example_vocab] d e p m s
    by simp
qed

lemma subtoken_loop_dom:
  "subtoken_loop v zs acc = Inr r \<Longrightarrow> \<forall>(e, a) \<in> set zs. e \<in> dom v \<and> a \<in> dom v"
proof (induction zs arbitrary: acc)
  case Nil
  then show ?case by simp
next
  case (Cons z zs)
  obtain e a where z: "z = (e, a)" by (cases z)
  obtain m ec ac where acc: "acc = (m, ec, ac)" by (cases acc)
  from Cons.prems show ?case
    unfolding z acc
    by (auto simp: itosubtokens_def split: option.splits dest: Cons.IH)
qed

lemma filter_member_le:
  assumes "distinct es"
  shows "length [s \<leftarrow> es. s \<in> set acts] \<le> length acts"
proof -
  have "length [s \<leftarrow> es. s \<in> set acts] = card (set [s \<leftarrow> es. s \<in> set acts])"
    using distinct_card [OF distinct_filter [OF assms], of "\<lambda>s. s \<in> set acts"] by simp
  also have "\<dots> \<le> card (set acts)"
    by (rule card_mono) auto
  also have "\<dots> \<le> length acts"
    by (rule card_length)
  finally show ?thesis .
qed

lemma matches_le_predicted:
  assumes "\<forall>(e, p) \<in> set zs. distinct (spec_subtokens v e)"
  shows "(\<Sum>(e, p)\<leftarrow>zs. length [s \<leftarrow> spec_subtokens v e. s \<in> set (spec_subtokens v p)])
     \<le> (\<Sum>(e, p)\<leftarrow>zs. length (spec_subtokens v p))"
  using assms by (induction zs) (auto intro!: add_mono filter_member_le)

lemma f1_of_unit:
  assumes "0 \<le> p" "p \<le> 1" "0 \<le> r" "r \<le> 1"
  shows "0 \<le> f1_of p r \<and> f1_of p r \<le> 1"
proof (cases "p + r > 0")
  case False
  then show ?thesis by (simp add: f1_of_def)
next
  case True
  have "p * r \<le> p * 1" using assms by (intro mult_left_mono) auto
  moreover have "p * r \<le> 1 * r" using assms by (intro mult_right_mono) auto
  ultimately have "2 * p * r \<le> p + r" by simp
  moreover have "0 \<le> 2 * p * r" using assms by simp
  ultimately show ?thesis using True by (simp add: f1_of_def)
qed

text \<open>
  Claim C6, as amended. Whenever the loop of \<open>subtoken_match\<close> ends without an
  exception, matches is at most expected_total. When moreover no expected label's
  subtoken list repeats a subtoken, matches is at most
  min(expected_total, predicted_total), and every F1 that \<open>subtoken_match\<close> returns
  lies in [0, 1]. Without that condition both bounds fail (the membership test counts a
  repeated expected subtoken each time): see the counterexample.
\<close>

theorem subtoken_match_bounds:
  assumes loop: "subtoken_loop v (zip expected predicted) (0, 0, 0)
                   = Inr (matches, expected_total, predicted_total)"
  shows "matches \<le> expected_total
       \<and> ((\<forall>e \<in> set expected. distinct (spec_subtokens v e)) \<longrightarrow>
            matches \<le> min expected_total predicted_total
            \<and> (\<forall>acc p r f. subtoken_match v expected predicted = Inr (acc, p, r, f) \<longrightarrow>
                  0 \<le> f \<and> f \<le> 1))"
proof -
  let ?zs = "zip expected predicted"
  have dom: "\<forall>(e, a) \<in> set ?zs. e \<in> dom v \<and> a \<in> dom v"
    using loop by (rule subtoken_loop_dom)
  have sums: "matches = real (\<Sum>(e, p)\<leftarrow>?zs. length [s \<leftarrow> spec_subtokens v e. s \<in> set (spec_subtokens v p)])"
    "expected_total = real (\<Sum>(e, p)\<leftarrow>?zs. length (spec_subtokens v e))"
    "predicted_total = real (\<Sum>(e, p)\<leftarrow>?zs. length (spec_subtokens v p))"
    using subtoken_loop_sums [OF dom, of 0 0 0] loop by simp_all
  have le_e: "matches \<le> expected_total"
    unfolding sums using matches_le_expected [of v ?zs] by simp
  have nonneg: "0 \<le> matches" unfolding sums by simp
  {
    assume dis: "\<forall>e \<in> set expected. distinct (spec_subtokens v e)"
    then have "\<forall>(e, p) \<in> set ?zs. distinct (spec_subtokens v e)"
      by (auto dest: set_zip_leftD)
    then have le_p: "matches \<le> predicted_total"
      unfolding sums using matches_le_predicted [of ?zs v] by simp
    have "\<forall>acc p r f. subtoken_match v expected predicted = Inr (acc, p, r, f) \<longrightarrow>
                  0 \<le> f \<and> f \<le> 1"
    proof (intro allI impI)
      fix acc p r f
      assume ret: "subtoken_match v expected predicted = Inr (acc, p, r, f)"
      then have p: "p = matches / predicted_total" and pt: "predicted_total \<noteq> 0"
        and r: "r = matches / expected_total" and et: "expected_total \<noteq> 0"
        and f: "f = f1_of p r"
        by (auto simp: subtoken_match_def loop truediv_def split: if_splits)
      have "0 \<le> p" "p \<le> 1" "0 \<le> r" "r \<le> 1"
        using nonneg le_e le_p pt et unfolding p r
        by (simp_all add: divide_le_eq_1 zero_le_divide_iff)
      then show "0 \<le> f \<and> f \<le> 1" unfolding f by (rule f1_of_unit)
    qed
    with le_p le_e have "matches \<le> min expected_total predicted_total
            \<and> (\<forall>acc p r f. subtoken_match v expected predicted = Inr (acc, p, r, f) \<longrightarrow>
                  0 \<le> f \<and> f \<le> 1)" by simp
  }
  with le_e show ?thesis by blast
qed

theorem subtoken_match_bounds_witness:
  "subtoken_loop example_vocab (zip [0, 0, 1] [0, 1, 1]) (0, 0, 0) = Inr (5, 6, 6)
   \<and> (5::real) \<le> min 6 6
   \<and> subtoken_match example_vocab [0, 0, 1] [0, 1, 1] = Inr (5 / 7, 5 / 6, 5 / 6, 5 / 6)
   \<and> (0::real) \<le> 5 / 6 \<and> (5::real) / 6 \<le> 1"
proof -
  have l: "subtoken_loop example_vocab (zip [0, 0, 1] [0, 1, 1]) (0, 0, 0) = Inr (5, 6, 6)"
    by (simp add: example_vocab_def itosubtokens_def)
  have d: "\<forall>e \<in> set [0, 0, 1]. distinct (spec_subtokens example_vocab e)"
    by (simp add: example_vocab_def spec_subtokens_def)
  have s: "subtoken_match example_vocab [0, 0, 1] [0, 1, 1] = Inr (5 / 7, 5 / 6, 5 / 6, 5 / 6)"
    by (simp add: example_vocab_def subtoken_match_def itosubtokens_def truediv_def f1_of_def)
  from subtoken_match_bounds [OF l] d s show ?thesis
    using l by simp
qed

text \<open>
  The claim as stated fails: with expected subtokens [x, x] and predicted subtokens [x],
  matches is 2 while predicted_total is 1, precision is 2 and F1 is 4/3.
\<close>

theorem subtoken_match_bounds_counterexample:
  "subtoken_loop dup_vocab (zip [0] [1]) (0, 0, 0) = Inr (2, 2, 1)
   \<and> \<not> (2::real) \<le> min 2 1
   \<and> subtoken_match dup_vocab [0] [1] = Inr (2, 2, 1, 4 / 3)
   \<and> (2::real) + 1 > 0
   \<and> \<not> (4::real) / 3 \<le> 1"
  by (simp add: dup_vocab_def subtoken_match_def itosubtokens_def truediv_def f1_of_def)

subsection \<open>Subtoken matching, averaged per example\<close>

lemma count_match_none: "count_match es [] m = m"
  by (induction es arbitrary: m) simp_all

lemma count_match_le: "count_match es acts (0::int) \<le> int (length es)"
proof -
  have "length [s \<leftarrow> es. s \<in> set acts] \<le> length es" by simp
  then show ?thesis by (simp add: count_match_filter)
qed

lemma example_scores_empty:
  assumes "es = [] \<or> acts = []"
  shows "example_scores es acts = Inl ZeroDivisionError"
  using assms by (auto simp: example_scores_def truediv_def count_match_none)

lemma example_scores_nonempty:
  assumes "es \<noteq> []" "acts \<noteq> []"
  shows "\<exists>r. example_scores es acts = Inr r"
proof -
  have "count_match es acts (0::int) \<le> int (length es)" by (rule count_match_le)
  moreover have "0 < length acts" using assms by simp
  ultimately have "int (length es) + int (length acts) - count_match es acts 0 \<noteq> 0"
    by linarith
  then show ?thesis using assms
    by (simp add: example_scores_def truediv_def Let_def)
qed

lemma averaged_loop_empty_raises:
  assumes "\<forall>(e, a) \<in> set zs. e \<in> dom v \<and> a \<in> dom v"
    and "\<exists>(e, a) \<in> set zs. v e = Some [] \<or> v a = Some []"
  shows "averaged_loop v zs (accs, precs, recs, f1s) = Inl ZeroDivisionError"
  using assms
proof (induction zs arbitrary: accs precs recs f1s)
  case Nil
  then show ?case by simp
next
  case (Cons z zs)
  obtain e a where z: "z = (e, a)" by (cases z)
  from Cons.prems(1) z obtain es acts where v: "v e = Some es" "v a = Some acts"
    by auto
  show ?case
  proof (cases "es = [] \<or> acts = []")
    case True
    then show ?thesis
      by (simp add: z v itosubtokens_def example_scores_empty)
  next
    case False
    then obtain r where r: "example_scores es acts = Inr r"
      using example_scores_nonempty by blast
    obtain acc prec rec f where r4: "r = (acc, prec, rec, f)" by (cases r)
    have dom: "\<forall>(e, a) \<in> set zs. e \<in> dom v \<and> a \<in> dom v"
      using Cons.prems(1) by simp
    have ex: "\<exists>(e, a) \<in> set zs. v e = Some [] \<or> v a = Some []"
      using Cons.prems(2) False z v by auto
    show ?thesis
      by (simp add: z v itosubtokens_def r r4 Cons.IH [OF dom ex])
  qed
qed

lemma averaged_loop_returns:
  assumes "\<forall>(e, a) \<in> set zs. e \<in> dom v \<and> a \<in> dom v"
    and "\<not> (\<exists>(e, a) \<in> set zs. v e = Some [] \<or> v a = Some [])"
  shows "\<exists>accs' precs' recs' f1s'.
           averaged_loop v zs (accs, precs, recs, f1s) = Inr (accs', precs', recs', f1s')
           \<and> length accs' = length accs + length zs
           \<and> length precs' = length precs + length zs
           \<and> length recs' = length recs + length zs
           \<and> length f1s' = length f1s + length zs"
  using assms
proof (induction zs arbitrary: accs precs recs f1s)
  case Nil
  then show ?case by simp
next
  case (Cons z zs)
  obtain e a where z: "z = (e, a)" by (cases z)
  from Cons.prems(1) z obtain es acts where v: "v e = Some es" "v a = Some acts"
    by auto
  have ne: "es \<noteq> []" "acts \<noteq> []"
    using Cons.prems(2) z v by auto
  then obtain r where r: "example_scores es acts = Inr r"
    using example_scores_nonempty by blast
  obtain acc prec rec f where r4: "r = (acc, prec, rec, f)" by (cases r)
  have dom: "\<forall>(e, a) \<in> set zs. e \<in> dom v \<and> a \<in> dom v"
    using Cons.prems(1) by simp
  have ex: "\<not> (\<exists>(e, a) \<in> set zs. v e = Some [] \<or> v a = Some [])"
    using Cons.prems(2) by auto
  from Cons.IH [OF dom ex, of "accs @ [acc]" "precs @ [prec]" "recs @ [rec]" "f1s @ [f]"]
  obtain accs' precs' recs' f1s' where
    step: "averaged_loop v zs (accs @ [acc], precs @ [prec], recs @ [rec], f1s @ [f])
             = Inr (accs', precs', recs', f1s')"
    and len: "length accs' = length (accs @ [acc]) + length zs"
      "length precs' = length (precs @ [prec]) + length zs"
      "length recs' = length (recs @ [rec]) + length zs"
      "length f1s' = length (f1s @ [f]) + length zs"
    by blast
  have "averaged_loop v (z # zs) (accs, precs, recs, f1s) = Inr (accs', precs', recs', f1s')"
    by (simp add: z v itosubtokens_def r r4 step)
  moreover have "length accs' = length accs + length (z # zs)"
    "length precs' = length precs + length (z # zs)"
    "length recs' = length recs + length (z # zs)"
    "length f1s' = length f1s + length (z # zs)"
    using len by simp_all
  ultimately show ?case by blast
qed

lemma np_average_fin: "xs \<noteq> [] \<Longrightarrow> \<exists>x. np_average xs = Fin x"
  by (simp add: np_average_def)

text \<open>
  Claim C7, as amended. With every label id in the vocabulary: when some example's
  expected or predicted subtoken list is empty, \<open>averaged_subtoken_match\<close> raises
  \<open>ZeroDivisionError\<close> (the example is neither scored zero nor left out of the
  average, and no metrics are returned, so no not-a-number value from it reaches the
  caller); when no example has an empty list and there is at least one example, it
  returns four finite averages.
\<close>

theorem averaged_subtoken_match_empty_list:
  assumes dom: "set expected \<union> set actual \<subseteq> dom v"
  shows "((\<exists>(e, a) \<in> set (zip expected actual). v e = Some [] \<or> v a = Some []) \<longrightarrow>
            averaged_subtoken_match v expected actual = Inl ZeroDivisionError)
       \<and> (\<not> (\<exists>(e, a) \<in> set (zip expected actual). v e = Some [] \<or> v a = Some []) \<longrightarrow>
            zip expected actual \<noteq> [] \<longrightarrow>
            (\<exists>acc p r f. averaged_subtoken_match v expected actual
                            = Inr (Fin acc, Fin p, Fin r, Fin f)))"
proof (intro conjI impI)
  assume "\<exists>(e, a) \<in> set (zip expected actual). v e = Some [] \<or> v a = Some []"
  then show "averaged_subtoken_match v expected actual = Inl ZeroDivisionError"
    using averaged_loop_empty_raises [OF zip_in_dom [OF dom]]
    by (simp add: averaged_subtoken_match_def)
next
  define zs where "zs = zip expected actual"
  assume "\<not> (\<exists>(e, a) \<in> set (zip expected actual). v e = Some [] \<or> v a = Some [])"
    and "zip expected actual \<noteq> []"
  then have none: "\<not> (\<exists>(e, a) \<in> set zs. v e = Some [] \<or> v a = Some [])"
    and ne: "zs \<noteq> []"
    unfolding zs_def by blast+
  have zdom: "\<forall>(e, a) \<in> set zs. e \<in> dom v \<and> a \<in> dom v"
    unfolding zs_def by (rule zip_in_dom [OF dom])
  from averaged_loop_returns [OF zdom none, of "[]" "[]" "[]" "[]"]
  obtain accs precs recs f1s where
    loop: "averaged_loop v zs ([], [], [], []) = Inr (accs, precs, recs, f1s)"
    and len: "length accs = length zs" "length precs = length zs"
      "length recs = length zs" "length f1s = length zs"
    by (elim exE conjE) (rule that; simp)
  from ne have pos: "0 < length zs" by simp
  have "accs \<noteq> []" using len(1) pos by auto
  then obtain acc where acc: "np_average accs = Fin acc"
    using np_average_fin by blast
  have "precs \<noteq> []" using len(2) pos by auto
  then obtain p where p: "np_average precs = Fin p"
    using np_average_fin by blast
  have "recs \<noteq> []" using len(3) pos by auto
  then obtain r where r: "np_average recs = Fin r"
    using np_average_fin by blast
  have "f1s \<noteq> []" using len(4) pos by auto
  then obtain f where f: "np_average f1s = Fin f"
    using np_average_fin by blast
  have "averaged_subtoken_match v expected actual = Inr (Fin acc, Fin p, Fin r, Fin f)"
    using loop by (simp add: averaged_subtoken_match_def zs_def acc p r f)
  then show "\<exists>acc p r f. averaged_subtoken_match v expected actual
                            = Inr (Fin acc, Fin p, Fin r, Fin f)"
    by blast
qed

theorem averaged_subtoken_match_empty_list_witness:
  "averaged_subtoken_match empty_vocab [1, 0] [1, 1] = Inl ZeroDivisionError
   \<and> averaged_subtoken_match example_vocab [0, 0, 1] [0, 1, 1]
       = Inr (Fin (7 / 9), Fin (5 / 6), Fin (5 / 6), Fin (5 / 6))"
proof -
  have d1: "set [1, 0] \<union> set [1, 1] \<subseteq> dom empty_vocab"
    by (simp add: empty_vocab_def)
  have e1: "\<exists>(e, a) \<in> set (zip [1, 0] [1, 1]). empty_vocab e = Some [] \<or> empty_vocab a = Some []"
    by (simp add: empty_vocab_def)
  have r: "averaged_subtoken_match example_vocab [0, 0, 1] [0, 1, 1]
       = Inr (Fin (7 / 9), Fin (5 / 6), Fin (5 / 6), Fin (5 / 6))"
    by (simp add: averaged_subtoken_match_def example_vocab_def itosubtokens_def
        example_scores_def truediv_def f1_of_def np_average_def Let_def)
  from averaged_subtoken_match_empty_list [OF d1] e1 r show ?thesis
    by blast
qed

text \<open>
  The claim as stated fails: on two examples, the second with an empty expected list,
  the call raises. Leaving the example out would give the scores of the first example
  alone (all 1), and scoring it zero would give 1/2 four times; the code gives neither.
\<close>

theorem averaged_subtoken_match_empty_list_counterexample:
  "averaged_subtoken_match empty_vocab [1, 0] [1, 1] = Inl ZeroDivisionError
   \<and> averaged_subtoken_match empty_vocab [1, 0] [1, 1] \<noteq> Inr (Fin 1, Fin 1, Fin 1, Fin 1)
   \<and> averaged_subtoken_match empty_vocab [1, 0] [1, 1]
       \<noteq> Inr (Fin (1 / 2), Fin (1 / 2), Fin (1 / 2), Fin (1 / 2))
   \<and> averaged_subtoken_match empty_vocab [1] [1] = Inr (Fin 1, Fin 1, Fin 1, Fin 1)"
  by (simp add: averaged_subtoken_match_def empty_vocab_def itosubtokens_def
      example_scores_def truediv_def f1_of_def np_average_def Let_def)

subsection \<open>Exact matching\<close>

lemma sum_indicator_zip:
  "sum_list (map (\<lambda>(t, p). if t = p then 1 else 0) (zip xs ys))
     = real (length [tp \<leftarrow> zip xs ys. fst tp = snd tp])"
  by (induction xs ys rule: list_induct2') simp_all

lemma equal_positions:
  assumes "length xs = length ys"
  shows "length [tp \<leftarrow> zip xs ys. fst tp = snd tp]
       = length [i \<leftarrow> [0..<length xs]. xs ! i = ys ! i]"
  using assms
proof (induction xs ys rule: list_induct2)
  case Nil
  then show ?case by simp
next
  case (Cons x xs y ys)
  have shift: "[0..<Suc (length xs)] = 0 # map Suc [0..<length xs]"
    by (simp add: upt_conv_Cons map_Suc_upt del: upt_Suc)
  show ?case
    using Cons.IH by (simp add: shift filter_map comp_def del: upt_Suc)
qed

lemma accuracy_score_count:
  assumes "length expected = length predicted" "expected \<noteq> []"
  shows "accuracy_score expected predicted = Inr (Fin (spec_exact_accuracy expected predicted))"
proof -
  from assms have "zip expected predicted \<noteq> []"
    by (cases expected; cases predicted) simp_all
  then show ?thesis
    using assms(1)
    by (simp add: accuracy_score_def np_average_def sum_indicator_zip equal_positions
        spec_exact_accuracy_def)
qed

lemma spec_exact_accuracy_unit:
  "0 \<le> spec_exact_accuracy expected predicted \<and> spec_exact_accuracy expected predicted \<le> 1"
proof -
  have "length [i \<leftarrow> [0..<length expected]. expected ! i = predicted ! i]
      \<le> length [0..<length expected]"
    by (rule length_filter_le)
  then have "real (length [i \<leftarrow> [0..<length expected]. expected ! i = predicted ! i])
      \<le> real (length expected)"
    by simp
  then show ?thesis
    by (simp add: spec_exact_accuracy_def divide_le_eq_1)
qed

text \<open>
  Claim C8. For label sequences of equal length that are not empty, the accuracy that
  \<open>exact_match\<close> returns (whenever the three per-class library calls return their
  score arrays) is the number of positions where expected equals predicted divided by
  the length, and lies in [0, 1]; on expected [A, A, B], predicted [A, B, B] it is 2/3.
\<close>

theorem exact_match_accuracy:
  assumes len: "length expected = length predicted" and ne: "expected \<noteq> []"
    and p: "precision_score sk expected predicted = Inr (pc # pcs)"
    and r: "recall_score sk expected predicted = Inr (rc # rcs)"
    and f: "f1_score sk expected predicted = Inr (fc # fcs)"
  shows "exact_match sk expected predicted
           = Inr (Fin (spec_exact_accuracy expected predicted), pc, rc, fc)
       \<and> 0 \<le> spec_exact_accuracy expected predicted
       \<and> spec_exact_accuracy expected predicted \<le> 1
       \<and> accuracy_score [0, 0, 1] [0, 1, 1] = Inr (Fin (2 / 3))"
proof -
  have "exact_match sk expected predicted
           = Inr (Fin (spec_exact_accuracy expected predicted), pc, rc, fc)"
    by (simp add: exact_match_def first_score_def p r f accuracy_score_count [OF len ne])
  moreover have "accuracy_score [0, 0, 1] [0, 1, 1] = Inr (Fin (2 / 3))"
    by (simp add: accuracy_score_def np_average_def)
  ultimately show ?thesis
    using spec_exact_accuracy_unit [of expected predicted] by simp
qed

theorem exact_match_accuracy_witness:
  "length [0, 0, 1 :: int] = length [0, 1, 1 :: int]
   \<and> exact_match example_sklearn [0, 0, 1] [0, 1, 1] = Inr (Fin (2 / 3), 1, 1 / 2, 2 / 3)
   \<and> spec_exact_accuracy [0, 0, 1] [0, 1, 1] = 2 / 3"
proof -
  have s: "spec_exact_accuracy [0, 0, 1] [0, 1, 1] = 2 / 3"
    by (simp add: spec_exact_accuracy_def upt_conv_Cons)
  have p: "precision_score example_sklearn [0, 0, 1] [0, 1, 1] = Inr (1 # [1 / 2])"
    and r: "recall_score example_sklearn [0, 0, 1] [0, 1, 1] = Inr ((1 / 2) # [1])"
    and f: "f1_score example_sklearn [0, 0, 1] [0, 1, 1] = Inr ((2 / 3) # [2 / 3])"
    by (simp_all add: example_sklearn_def)
  from exact_match_accuracy [OF _ _ p r f] s show ?thesis
    by simp
qed

subsection \<open>The vector exporter's file handles\<close>

text \<open>
  The inner loops open and close nothing; without a result file every way out of
  \<open>write_code_vectors\<close> leaves the open handles as they were (the \<^verbatim>\<open>with\<close> block);
  and a call that returns normally has closed both files.
\<close>

lemma write_rows_handles:
  "open_handles (fst (write_rows itos fv fr rows w)) = open_handles w"
  by (induction rows arbitrary: w)
    (auto simp: py_write_def Let_def split: option.splits)

lemma write_batches_handles:
  "open_handles (fst (write_batches itos fv fr data_loader w)) = open_handles w"
proof (induction data_loader arbitrary: w)
  case Nil
  then show ?case by simp
next
  case (Cons b bs)
  obtain w1 r where wr: "write_rows itos fv fr b w = (w1, r)"
    by (cases "write_rows itos fv fr b w")
  then have "open_handles w1 = open_handles w"
    using write_rows_handles [of itos fv fr b w] by simp
  then show ?case
    using Cons.IH [of w1] by (cases r) (simp_all add: wr)
qed

lemma write_batches_result_handles:
  "write_batches itos fv fr data_loader w = (w1, r) \<Longrightarrow> open_handles w1 = open_handles w"
  using write_batches_handles [of itos fv fr data_loader w] by simp

lemma write_code_vectors_returns_closed:
  assumes "snd (write_code_vectors itos data_loader vector_file mode test_result_file w) = None"
  shows "open_handles (fst (write_code_vectors itos data_loader vector_file mode test_result_file w))
       = open_handles w"
proof -
  let ?run = "write_code_vectors itos data_loader vector_file mode test_result_file w"
  obtain w1 where o1: "(case test_result_file of None \<Rightarrow> Inr w | Some p \<Rightarrow> py_open p ModeW w)
                         = Inr w1"
    using assms by (auto simp: write_code_vectors_def split: sum.splits)
  then have h1: "open_handles w1
                   = (case test_result_file of None \<Rightarrow> [] | Some p \<Rightarrow> [p]) @ open_handles w"
    and u1: "unwritable w1 = unwritable w"
    by (auto simp: py_open_def split: option.splits if_splits)
  obtain w2 where o2: "py_open vector_file mode w1 = Inr w2"
    using assms o1 by (auto simp: write_code_vectors_def split: sum.splits)
  then have h2: "open_handles w2 = vector_file # open_handles w1"
    by (auto simp: py_open_def split: if_splits)
  obtain w3 where o3: "write_batches itos vector_file test_result_file data_loader w2 = (w3, None)"
    using assms o1 o2
    by (auto simp: write_code_vectors_def split: sum.splits prod.splits option.splits)
  then have h3: "open_handles w3 = open_handles w2"
    by (rule write_batches_result_handles)
  show ?thesis
    using o1 o2 o3 h1 h2 h3
    by (cases test_result_file)
      (simp_all add: write_code_vectors_def py_close_def Let_def)
qed

lemma write_code_vectors_vector_file_scoped:
  "open_handles (fst (write_code_vectors itos data_loader vector_file mode None w))
     = open_handles w"
proof (cases "py_open vector_file mode w")
  case (Inl e)
  then show ?thesis by (simp add: write_code_vectors_def)
next
  case (Inr w2)
  then have h2: "open_handles w2 = vector_file # open_handles w"
    by (auto simp: py_open_def split: if_splits)
  obtain w3 r where o3: "write_batches itos vector_file None data_loader w2 = (w3, r)"
    by (cases "write_batches itos vector_file None data_loader w2")
  then have "open_handles w3 = open_handles w2"
    by (rule write_batches_result_handles)
  then show ?thesis
    using Inr o3 h2 by (cases r) (simp_all add: write_code_vectors_def py_close_def Let_def)
qed

text \<open>
  Claim C9 (the code departs from it). The result file is not opened with scoped
  acquisition. When the vector file cannot be opened, and when a label id is missing
  from the vocabulary during the export, \<open>write_code_vectors\<close> leaves with the
  exception and the handle of the result file is still open; the same call on inputs
  that raise nothing closes both.
\<close>

theorem write_code_vectors_leaks_result_file:
  "snd (write_code_vectors [0 \<mapsto> ''A''] [[leak_row]] ''vectors.txt'' ModeA
          (Some ''result.txt'') locked_world) = Some OSError
   \<and> open_handles (fst (write_code_vectors [0 \<mapsto> ''A''] [[leak_row]] ''vectors.txt'' ModeA
          (Some ''result.txt'') locked_world)) = [''result.txt'']
   \<and> snd (write_code_vectors Map.empty [[leak_row]] ''vectors.txt'' ModeA
          (Some ''result.txt'') clean_world) = Some LookupError
   \<and> open_handles (fst (write_code_vectors Map.empty [[leak_row]] ''vectors.txt'' ModeA
          (Some ''result.txt'') clean_world)) = [''result.txt'']
   \<and> snd (write_code_vectors [0 \<mapsto> ''A''] [[leak_row]] ''vectors.txt'' ModeA
          (Some ''result.txt'') clean_world) = None
   \<and> open_handles (fst (write_code_vectors [0 \<mapsto> ''A''] [[leak_row]] ''vectors.txt'' ModeA
          (Some ''result.txt'') clean_world)) = []"
  by (simp add: write_code_vectors_def py_open_def py_close_def py_write_def
      locked_world_def clean_world_def leak_row_def Let_def)

subsection \<open>The training loop: what an epoch changes\<close>

text \<open>
  With \<open>DISALLOW_WRITE\<close> set, the checkpoint rule only logs and updates
  \<open>best_f1\<close>.
\<close>

lemma checkpoint_step_no_write:
  "checkpoint_step args reader opt obs s =
     (if improved s
      then (s\<lparr>console := console s @ [BestF1Line (f1 s)], best_f1 := Some (f1 s)\<rparr>, None)
      else (s, None))"
  by (simp add: checkpoint_step_def DISALLOW_WRITE_def Let_def)

lemma report_step_cases:
  "report_step ep s =
     (case trial_h s of
        None \<Rightarrow> (s, None)
      | Some t \<Rightarrow>
          (s\<lparr>trial_h := Some (trial_report (fsub (Fin 1) (f1 s)) ep t)\<rparr>,
           if trial_should_prune ep (trial_report (fsub (Fin 1) (f1 s)) ep t)
           then Some TrialPruned else None))"
  by (simp add: report_step_def Let_def split: option.splits)

lemma epoch_body_fs: "fs (fst (epoch_body args reader opt obs ep s)) = fs s"
  by (simp add: epoch_body_def report_step_cases checkpoint_step_no_write early_stop_step_def
      Let_def split: option.splits sum.splits)

lemma epoch_body_f1: "f1 (fst (epoch_body args reader opt obs ep s)) = f1 s"
  by (simp add: epoch_body_def report_step_cases checkpoint_step_no_write early_stop_step_def
      Let_def split: option.splits sum.splits)

lemma train_loop_fs: "fs (fst (train_loop args reader opt obs eps s)) = fs s"
proof (induction eps arbitrary: s)
  case Nil
  then show ?case by simp
next
  case (Cons ep eps)
  obtain s1 r where b: "epoch_body args reader opt (obs ep) ep s = (s1, r)"
    by (cases "epoch_body args reader opt (obs ep) ep s")
  then have "fs s1 = fs s"
    using epoch_body_fs [of args reader opt "obs ep" ep s] by simp
  then show ?case
    using Cons.IH [of s1] by (simp add: b split: sum.splits flow.splits)
qed

lemma train_loop_f1: "f1 (fst (train_loop args reader opt obs eps s)) = f1 s"
proof (induction eps arbitrary: s)
  case Nil
  then show ?case by simp
next
  case (Cons ep eps)
  obtain s1 r where b: "epoch_body args reader opt (obs ep) ep s = (s1, r)"
    by (cases "epoch_body args reader opt (obs ep) ep s")
  then have "f1 s1 = f1 s"
    using epoch_body_f1 [of args reader opt "obs ep" ep s] by simp
  then show ?case
    using Cons.IH [of s1] by (simp add: b split: sum.splits flow.splits)
qed

lemma epoch_lines_append: "epoch_lines (xs @ ys) = epoch_lines xs @ epoch_lines ys"
  by (induction xs rule: epoch_lines.induct) simp_all

lemma epoch_lines_metric_lines: "epoch_lines (metric_lines ep obs) = [ep]"
  by (simp add: metric_lines_def)

lemma flt_trans: "flt a b \<Longrightarrow> flt b c \<Longrightarrow> flt a c"
  by (cases a; cases b; cases c) simp_all

lemma flt_asym: "flt a b \<Longrightarrow> \<not> flt b a"
  by (cases a; cases b) simp_all

lemma report_step_quiet:
  assumes "never_prunes (trial_h s)"
  shows "snd (report_step ep s) = None"
    and "never_prunes (trial_h (fst (report_step ep s)))"
    and "fst (report_step ep s) = s\<lparr>trial_h := trial_h (fst (report_step ep s))\<rparr>"
  using assms
  by (auto simp: report_step_cases never_prunes_def trial_should_prune_def trial_report_def
      split: option.splits)

subsection \<open>The early-stop rule\<close>

text \<open>
  An epoch that improves neither tracker, and the first epoch of a run, under a trial
  that does not prune.
\<close>

lemma bad_epoch:
  assumes quiet: "never_prunes (trial_h s)"
    and ll: "last_loss s = Some l0" and la: "last_accuracy s = Some a0"
    and nl: "\<not> flt (train_loss obs) l0"
    and acc: "accuracy (dev obs) = Some d" and na: "\<not> flt a0 d"
  shows "snd (epoch_body args reader opt obs ep s)
           = Inr (if bad_count s + 1 > 10 then Break else Continue)"
    and "bad_count (fst (epoch_body args reader opt obs ep s)) = bad_count s + 1"
    and "last_loss (fst (epoch_body args reader opt obs ep s)) = Some l0"
    and "last_accuracy (fst (epoch_body args reader opt obs ep s)) = Some a0"
    and "never_prunes (trial_h (fst (epoch_body args reader opt obs ep s)))"
    and "epoch (fst (epoch_body args reader opt obs ep s)) = Some ep"
    and "epoch_lines (console (fst (epoch_body args reader opt obs ep s)))
           = epoch_lines (console s) @ [ep]"
    and "bad_count s + 1 > 10 \<Longrightarrow>
           last (console (fst (epoch_body args reader opt obs ep s)))
             = EarlyStopLine (train_loss obs) (bad_count s + 1)"
  using assms
  by (auto simp: epoch_body_def report_step_cases checkpoint_step_no_write early_stop_step_def
      early_stop_cond_def never_prunes_def trial_should_prune_def trial_report_def
      epoch_lines_append epoch_lines_metric_lines
      Let_def split: option.splits)

lemma first_epoch:
  assumes quiet: "never_prunes (trial_h s)"
    and ll: "last_loss s = None"
  shows "snd (epoch_body args reader opt obs ep s) = Inr Continue"
    and "bad_count (fst (epoch_body args reader opt obs ep s)) = 0"
    and "last_loss (fst (epoch_body args reader opt obs ep s)) = Some (train_loss obs)"
    and "last_accuracy (fst (epoch_body args reader opt obs ep s)) = accuracy (dev obs)"
    and "never_prunes (trial_h (fst (epoch_body args reader opt obs ep s)))"
    and "epoch (fst (epoch_body args reader opt obs ep s)) = Some ep"
    and "epoch_lines (console (fst (epoch_body args reader opt obs ep s)))
           = epoch_lines (console s) @ [ep]"
  using assms
  by (auto simp: epoch_body_def report_step_cases checkpoint_step_no_write early_stop_step_def
      early_stop_cond_def never_prunes_def trial_should_prune_def trial_report_def
      epoch_lines_append epoch_lines_metric_lines
      Let_def split: option.splits)

lemma early_stop_cond_spec:
  assumes "accuracy (dev ob) \<noteq> None"
  shows "early_stop_cond ob s = Inr (spec_any_improvement ob s)"
  using assms
  by (auto simp: early_stop_cond_def spec_any_improvement_def split: option.splits)

lemma bad_run:
  assumes "never_prunes (trial_h s)"
    and "last_loss s = Some l0" and "last_accuracy s = Some a0"
    and "\<forall>ep \<in> set eps. \<not> flt (train_loss (obs ep)) l0
           \<and> (\<exists>d. accuracy (dev (obs ep)) = Some d \<and> \<not> flt a0 d)"
    and "bad_count s + length eps \<le> 10"
  shows "\<exists>s1. train_loop args reader opt obs (eps @ rest) s
                = train_loop args reader opt obs rest s1
           \<and> bad_count s1 = bad_count s + length eps
           \<and> last_loss s1 = Some l0 \<and> last_accuracy s1 = Some a0
           \<and> never_prunes (trial_h s1)
           \<and> epoch_lines (console s1) = epoch_lines (console s) @ eps"
  using assms
proof (induction eps arbitrary: s)
  case Nil
  then show ?case by (intro exI [of _ s]) simp
next
  case (Cons ep eps)
  let ?b = "epoch_body args reader opt (obs ep) ep s"
  from Cons.prems(4) obtain d where nl: "\<not> flt (train_loss (obs ep)) l0"
    and acc: "accuracy (dev (obs ep)) = Some d" and na: "\<not> flt a0 d"
    by auto
  note be = bad_epoch [OF Cons.prems(1) Cons.prems(2) Cons.prems(3) nl acc na,
      of args reader opt ep]
  have cont: "snd ?b = Inr Continue"
    using be(1) Cons.prems(5) by simp
  have rest: "\<forall>ep \<in> set eps. \<not> flt (train_loss (obs ep)) l0
           \<and> (\<exists>d. accuracy (dev (obs ep)) = Some d \<and> \<not> flt a0 d)"
    using Cons.prems(4) by simp
  have cnt: "bad_count (fst ?b) + length eps \<le> 10"
    using be(2) Cons.prems(5) by simp
  from Cons.IH [OF be(5) be(3) be(4) rest cnt]
  obtain s1 where s1: "train_loop args reader opt obs (eps @ rest) (fst ?b)
                = train_loop args reader opt obs rest s1"
    "bad_count s1 = bad_count (fst ?b) + length eps"
    "last_loss s1 = Some l0" "last_accuracy s1 = Some a0"
    "never_prunes (trial_h s1)"
    "epoch_lines (console s1) = epoch_lines (console (fst ?b)) @ eps"
    by blast
  have "train_loop args reader opt obs ((ep # eps) @ rest) s
          = train_loop args reader opt obs (eps @ rest) (fst ?b)"
    using cont by (cases ?b) simp
  then show ?case
    using s1 be(2) be(7) by (intro exI [of _ s1]) simp
qed

lemma worsening_chain:
  assumes "\<forall>i \<in> {1..n}. worsening obs i" and "1 \<le> i" and "i \<le> n"
  shows "flt (train_loss (obs 0)) (train_loss (obs i))
       \<and> (\<exists>a b. accuracy (dev (obs i)) = Some a \<and> accuracy (dev (obs 0)) = Some b \<and> flt a b)"
  using assms(2,3)
proof (induction i rule: nat_induct_at_least)
  case base
  from assms(1) base have "worsening obs 1" by simp
  then show ?case
    by (auto simp: worsening_def split: option.splits)
next
  case (Suc i)
  then have ih: "flt (train_loss (obs 0)) (train_loss (obs i))"
    "\<exists>a b. accuracy (dev (obs i)) = Some a \<and> accuracy (dev (obs 0)) = Some b \<and> flt a b"
    by simp_all
  from assms(1) Suc have "worsening obs (Suc i)" by simp
  then have w: "flt (train_loss (obs i)) (train_loss (obs (Suc i)))"
    "\<exists>a b. accuracy (dev (obs (Suc i))) = Some a \<and> accuracy (dev (obs i)) = Some b \<and> flt a b"
    by (auto simp: worsening_def split: option.splits)
  show ?case
    using ih w by (auto intro: flt_trans)
qed

lemma twelve_epochs: "[0..<12] = 0 # ([1..<11] @ [11])"
  by code_simp

lemma epochs_split:
  assumes "12 \<le> n"
  shows "[0..<n] = 0 # ([1..<11] @ (11 # [12..<n]))"
proof -
  from assms obtain k where n: "n = 12 + k"
    using le_Suc_ex by blast
  have "[0..<12 + k] = [0..<12] @ [12..<12 + k]"
    by (rule upt_add_eq_append) simp
  then show ?thesis
    unfolding n twelve_epochs by simp
qed

lemma early_stop_scenario:
  assumes n: "12 \<le> max_epoch args" and q: "never_prunes tr"
    and w: "\<forall>i \<in> {1..11}. worsening obs i"
  shows "train_loop args reader opt obs [0..<max_epoch args] (init_state tr w0) = (s', r) \<Longrightarrow>
           r = None \<and> bad_count s' = 11 \<and> epoch s' = Some 11
           \<and> epoch_lines (console s') = [0..<12]
           \<and> last (console s') = EarlyStopLine (train_loss (obs 11)) 11"
proof -
  assume run: "train_loop args reader opt obs [0..<max_epoch args] (init_state tr w0) = (s', r)"
  let ?s0 = "init_state tr w0"
  let ?b0 = "epoch_body args reader opt (obs 0) 0 ?s0"
  let ?rest = "11 # [12..<max_epoch args]"
  have q0: "never_prunes (trial_h ?s0)" and l0: "last_loss ?s0 = None"
    using q by (simp_all add: init_state_def)
  note f = first_epoch [OF q0 l0, of args reader opt "obs 0" 0]
  have c0: "epoch_lines (console ?s0) = []" by (simp add: init_state_def)
  from worsening_chain [OF w, of 1] obtain b where b: "accuracy (dev (obs 0)) = Some b"
    by auto
  have bad: "\<forall>ep \<in> set [1..<11]. \<not> flt (train_loss (obs ep)) (train_loss (obs 0))
           \<and> (\<exists>d. accuracy (dev (obs ep)) = Some d \<and> \<not> flt b d)"
  proof
    fix ep assume "ep \<in> set [1..<11]"
    then have "1 \<le> ep" "ep \<le> 11" by auto
    from worsening_chain [OF w this] b show "\<not> flt (train_loss (obs ep)) (train_loss (obs 0))
           \<and> (\<exists>d. accuracy (dev (obs ep)) = Some d \<and> \<not> flt b d)"
      by (auto dest: flt_asym)
  qed
  have la: "last_accuracy (fst ?b0) = Some b" using f(4) b by simp
  have cnt: "bad_count (fst ?b0) + length [1..<11] \<le> 10" using f(2) by simp
  from bad_run [OF f(5) f(3) la bad cnt, of args reader opt ?rest]
  obtain s2 where s2: "train_loop args reader opt obs ([1..<11] @ ?rest) (fst ?b0)
                = train_loop args reader opt obs ?rest s2"
    "bad_count s2 = bad_count (fst ?b0) + length [1..<11]"
    "last_loss s2 = Some (train_loss (obs 0))" "last_accuracy s2 = Some b"
    "never_prunes (trial_h s2)"
    "epoch_lines (console s2) = epoch_lines (console (fst ?b0)) @ [1..<11]"
    by blast
  have ten: "bad_count s2 = 10" using s2(2) f(2) by simp
  from worsening_chain [OF w, of 11] b obtain d where
    nl: "\<not> flt (train_loss (obs 11)) (train_loss (obs 0))"
    and acc: "accuracy (dev (obs 11)) = Some d" and na: "\<not> flt b d"
    by (auto dest: flt_asym)
  let ?b11 = "epoch_body args reader opt (obs 11) 11 s2"
  note e = bad_epoch [OF s2(5) s2(3) s2(4) nl acc na, of args reader opt 11]
  have brk: "snd ?b11 = Inr Break" using e(1) ten by simp
  have "train_loop args reader opt obs [0..<max_epoch args] ?s0
          = train_loop args reader opt obs ([1..<11] @ ?rest) (fst ?b0)"
    using f(1) by (cases ?b0) (simp add: epochs_split [OF n])
  also have "\<dots> = train_loop args reader opt obs ?rest s2" by (rule s2(1))
  also have "\<dots> = (fst ?b11, None)"
    using brk by (cases ?b11) simp
  finally have res: "s' = fst ?b11" "r = None" using run by simp_all
  have lines: "epoch_lines (console (fst ?b11)) = [0..<12]"
    using e(7) s2(6) f(7) c0 by (simp add: twelve_epochs)
  show ?thesis
    using res e(2) e(6) e(8) ten lines by simp
qed

text \<open>
  Claim C4. Per epoch, when the dev accuracy is a number: if \<open>last_loss\<close> is unset, or
  the training loss is below it, or \<open>last_accuracy\<close> is unset, or the dev accuracy is
  above it, then \<open>bad_count\<close> becomes 0 and both trackers are updated; otherwise
  \<open>bad_count\<close> grows by one and the trackers stay; the rule breaks out of the loop
  exactly when \<open>bad_count\<close> then exceeds 10, and a break runs no further epoch.
  Scenario, with epochs numbered from 0 as the code numbers them: when each of the
  epochs 1 to 11 has a higher training loss and a lower dev accuracy than the epoch
  before it, at least 12 epochs are allowed and no trial prunes, the run ends at epoch
  11 with \<open>bad_count\<close> 11, having run the epochs 0 to 11 and no other, and returns.
\<close>

theorem early_stop_rule:
  assumes n: "12 \<le> max_epoch args" and q: "never_prunes tr"
    and w: "\<forall>i \<in> {1..11}. worsening obs i"
  shows "(\<forall>ob s. accuracy (dev ob) \<noteq> None \<longrightarrow>
            (let s1 = fst (early_stop_step ob s); r = snd (early_stop_step ob s) in
               (spec_any_improvement ob s \<longrightarrow>
                  bad_count s1 = 0 \<and> last_loss s1 = Some (train_loss ob)
                  \<and> last_accuracy s1 = accuracy (dev ob))
             \<and> (\<not> spec_any_improvement ob s \<longrightarrow>
                  bad_count s1 = bad_count s + 1 \<and> last_loss s1 = last_loss s
                  \<and> last_accuracy s1 = last_accuracy s)
             \<and> r = Inr (if bad_count s1 > 10 then Break else Continue)))
       \<and> (\<forall>ep rest s. snd (epoch_body args reader opt (obs ep) ep s) = Inr Break \<longrightarrow>
            train_loop args reader opt obs (ep # rest) s
              = (fst (epoch_body args reader opt (obs ep) ep s), None))
       \<and> (let run = u_train args reader opt obs tr w0 in
            snd run = Inr (Fin 1) \<and> bad_count (fst run) = 11 \<and> epoch (fst run) = Some 11
            \<and> epoch_lines (console (fst run)) = [0..<12]
            \<and> last (console (fst run)) = EarlyStopLine (train_loss (obs 11)) 11)"
proof (intro conjI allI impI)
  fix ob :: epoch_obs and s :: run_state
  assume "accuracy (dev ob) \<noteq> None"
  then show "let s1 = fst (early_stop_step ob s); r = snd (early_stop_step ob s) in
               (spec_any_improvement ob s \<longrightarrow>
                  bad_count s1 = 0 \<and> last_loss s1 = Some (train_loss ob)
                  \<and> last_accuracy s1 = accuracy (dev ob))
             \<and> (\<not> spec_any_improvement ob s \<longrightarrow>
                  bad_count s1 = bad_count s + 1 \<and> last_loss s1 = last_loss s
                  \<and> last_accuracy s1 = last_accuracy s)
             \<and> r = Inr (if bad_count s1 > 10 then Break else Continue)"
    by (simp add: early_stop_step_def early_stop_cond_spec Let_def)
next
  fix ep :: nat and rest :: "nat list" and s :: run_state
  assume "snd (epoch_body args reader opt (obs ep) ep s) = Inr Break"
  then show "train_loop args reader opt obs (ep # rest) s
              = (fst (epoch_body args reader opt (obs ep) ep s), None)"
    by (cases "epoch_body args reader opt (obs ep) ep s") simp
next
  let ?loop = "train_loop args reader opt obs [0..<max_epoch args] (init_state tr w0)"
  obtain s' r where run: "?loop = (s', r)" by (cases ?loop)
  note sc = early_stop_scenario [OF n q w run]
  have "f1 s' = Fin 0"
    using train_loop_f1 [of args reader opt obs "[0..<max_epoch args]" "init_state tr w0"] run
    by (simp add: init_state_def)
  then show "let run = u_train args reader opt obs tr w0 in
            snd run = Inr (Fin 1) \<and> bad_count (fst run) = 11 \<and> epoch (fst run) = Some 11
            \<and> epoch_lines (console (fst run)) = [0..<12]
            \<and> last (console (fst run)) = EarlyStopLine (train_loss (obs 11)) 11"
    using sc by (simp add: u_train_def run Let_def)
qed

theorem early_stop_rule_witness:
  "12 \<le> max_epoch demo_args \<and> never_prunes None
   \<and> train_loss (rising_obs 11) = Fin 11
   \<and> snd (u_train demo_args demo_reader demo_opt rising_obs None clean_world) = Inr (Fin 1)
   \<and> bad_count (fst (u_train demo_args demo_reader demo_opt rising_obs None clean_world)) = 11
   \<and> epoch (fst (u_train demo_args demo_reader demo_opt rising_obs None clean_world)) = Some 11
   \<and> last (console (fst (u_train demo_args demo_reader demo_opt rising_obs None clean_world)))
        = EarlyStopLine (Fin 11) 11"
proof -
  have n: "12 \<le> max_epoch demo_args" by (simp add: demo_args_def)
  have q: "never_prunes None" by (simp add: never_prunes_def)
  have w: "\<forall>i \<in> {1..11}. worsening rising_obs i"
    by (auto simp: worsening_def rising_obs_def demo_metrics_def)
  have t: "train_loss (rising_obs 11) = Fin 11" by (simp add: rising_obs_def)
  from early_stop_rule [OF n q w, of demo_reader demo_opt clean_world] n q t
  show ?thesis by (simp add: Let_def)
qed

subsection \<open>No write under \<open>DISALLOW_WRITE\<close>\<close>

text \<open>The console only grows, and the first epoch of a run without a trial logs a best F1.\<close>

lemma report_step_console: "console (fst (report_step ep s)) = console s"
  by (simp add: report_step_cases split: option.splits)

lemma checkpoint_step_console:
  "console (fst (checkpoint_step args reader opt ob s))
     = console s @ (if improved s then [BestF1Line (f1 s)] else [])"
  by (simp add: checkpoint_step_no_write)

lemma early_stop_step_console:
  "set (console s) \<subseteq> set (console (fst (early_stop_step ob s)))"
  by (cases "early_stop_cond ob s") (auto simp: early_stop_step_def Let_def)

lemma epoch_body_console:
  "set (console s) \<subseteq> set (console (fst (epoch_body args reader opt ob ep s)))"
proof -
  let ?s0 = "s\<lparr>epoch := Some ep, console := console s @ metric_lines ep ob\<rparr>"
  obtain s1 r1 where r: "report_step ep ?s0 = (s1, r1)" by (cases "report_step ep ?s0")
  have c1: "console s1 = console s @ metric_lines ep ob"
    using report_step_console [of ep ?s0] r by simp
  show ?thesis
  proof (cases r1)
    case (Some e)
    then show ?thesis using c1 by (simp add: epoch_body_def r Let_def)
  next
    case None
    obtain s2 r2 where c: "checkpoint_step args reader opt ob s1 = (s2, r2)"
      by (cases "checkpoint_step args reader opt ob s1")
    have r2: "r2 = None" using c by (simp add: checkpoint_step_no_write split: if_splits)
    have c2: "set (console s1) \<subseteq> set (console s2)"
      using checkpoint_step_console [of args reader opt ob s1] c by auto
    have "set (console s2) \<subseteq> set (console (fst (early_stop_step ob s2)))"
      by (rule early_stop_step_console)
    then show ?thesis
      using c1 c2 by (auto simp: epoch_body_def r None c r2 Let_def)
  qed
qed

lemma train_loop_console:
  "set (console s) \<subseteq> set (console (fst (train_loop args reader opt obs eps s)))"
proof (induction eps arbitrary: s)
  case Nil
  then show ?case by simp
next
  case (Cons ep eps)
  obtain s1 r where b: "epoch_body args reader opt (obs ep) ep s = (s1, r)"
    by (cases "epoch_body args reader opt (obs ep) ep s")
  then have "set (console s) \<subseteq> set (console s1)"
    using epoch_body_console [of s args reader opt "obs ep" ep] by simp
  then show ?case
    using Cons.IH [of s1] by (auto simp: b split: sum.splits flow.splits)
qed

lemma first_improvement:
  assumes "best_f1 s = None" and "trial_h s = None"
  shows "BestF1Line (f1 s) \<in> set (console (fst (epoch_body args reader opt ob ep s)))"
proof -
  let ?s0 = "s\<lparr>epoch := Some ep, console := console s @ metric_lines ep ob\<rparr>"
  let ?s2 = "?s0\<lparr>console := console ?s0 @ [BestF1Line (f1 s)], best_f1 := Some (f1 s)\<rparr>"
  have r: "report_step ep ?s0 = (?s0, None)"
    using assms(2) by (simp add: report_step_cases)
  have c: "checkpoint_step args reader opt ob ?s0 = (?s2, None)"
    using assms(1) by (simp add: checkpoint_step_no_write improved_def)
  have b: "epoch_body args reader opt ob ep s = early_stop_step ob ?s2"
    by (simp add: epoch_body_def r c Let_def)
  have "BestF1Line (f1 s) \<in> set (console ?s2)" by simp
  then show ?thesis
    unfolding b using early_stop_step_console [of ?s2 ob] by blast
qed

text \<open>
  The persistence branch itself does write: run on its own, it leaves the header and the
  vectors in the vector file, a line in the result file and the checkpoint.
\<close>

lemma persist_writes:
  "snd (persist demo_args demo_reader demo_opt (rising_obs 0) clean_world) = None
   \<and> files (fst (persist demo_args demo_reader demo_opt (rising_obs 0) clean_world)) ''vectors.txt''
       = Some [HeaderLine 3 1, VectorLine ''A'' [1 / 2], VectorLine ''A'' [1 / 2]]
   \<and> files (fst (persist demo_args demo_reader demo_opt (rising_obs 0) clean_world)) ''result.txt''
       = Some [ResultLine 7 True ''A'' ''A'' 1]
   \<and> files (fst (persist demo_args demo_reader demo_opt (rising_obs 0) clean_world))
         ''model/code2vec.model''
       = Some [ModelBlob 0]"
  by (simp add: persist_def write_code_vectors_def py_open_def py_close_def py_write_def
      torch_save_def path_join_def demo_args_def demo_reader_def demo_opt_def rising_obs_def
      clean_world_def leak_row_def Let_def)

text \<open>
  Claim C10. \<open>DISALLOW_WRITE\<close> is \<open>True\<close>, so the persistence branch is never
  entered: after every run of \<open>_train\<close>, with or without a trial, the file system
  (the content of every file and the open handles) is what it was before the run. This
  holds although a run of at least one epoch without a trial does pass through an
  improvement (it logs a best F1).
\<close>

theorem train_never_writes:
  "DISALLOW_WRITE
   \<and> fs (fst (u_train args reader opt obs tr w)) = w
   \<and> (0 < max_epoch args \<and> tr = None \<longrightarrow>
        BestF1Line (Fin 0) \<in> set (console (fst (u_train args reader opt obs tr w))))"
proof (intro conjI impI)
  show "DISALLOW_WRITE" by (simp add: DISALLOW_WRITE_def)
  let ?loop = "train_loop args reader opt obs [0..<max_epoch args] (init_state tr w)"
  have u: "fst (u_train args reader opt obs tr w) = fst ?loop"
    by (cases ?loop) (simp add: u_train_def split: option.splits)
  show "fs (fst (u_train args reader opt obs tr w)) = w"
    unfolding u by (simp add: train_loop_fs init_state_def)
  assume a: "0 < max_epoch args \<and> tr = None"
  let ?s0 = "init_state tr w"
  let ?b0 = "epoch_body args reader opt (obs 0) 0 ?s0"
  have e: "[0..<max_epoch args] = 0 # [1..<max_epoch args]"
    using a by (simp add: upt_conv_Cons)
  have "BestF1Line (Fin 0) \<in> set (console (fst ?b0))"
    using first_improvement [of ?s0 args reader opt "obs 0" 0] a by (simp add: init_state_def)
  moreover have "set (console (fst ?b0)) \<subseteq> set (console (fst ?loop))"
    unfolding e using train_loop_console [of "fst ?b0" args reader opt obs "[1..<max_epoch args]"]
    by (cases ?b0) (auto split: sum.splits flow.splits)
  ultimately show "BestF1Line (Fin 0) \<in> set (console (fst (u_train args reader opt obs tr w)))"
    unfolding u by blast
qed

theorem train_never_writes_witness:
  "0 < max_epoch demo_args
   \<and> fs (fst (u_train demo_args demo_reader demo_opt rising_obs None clean_world)) = clean_world
   \<and> BestF1Line (Fin 0)
        \<in> set (console (fst (u_train demo_args demo_reader demo_opt rising_obs None clean_world)))"
  using train_never_writes [of demo_args demo_reader demo_opt rising_obs None clean_world]
  by (simp add: demo_args_def)

subsection \<open>The stale \<open>f1\<close>, reports and pruning\<close>

text \<open>
  What an epoch does to the trial and to the console, and what the loop reports: one
  value \<open>1.0 - f1\<close> for each epoch it starts.
\<close>

lemma epoch_body_trial:
  "trial_h (fst (epoch_body args reader opt ob ep s))
     = (case trial_h s of
          None \<Rightarrow> None
        | Some t \<Rightarrow> Some (trial_report (fsub (Fin 1) (f1 s)) ep t))"
  by (simp add: epoch_body_def report_step_cases checkpoint_step_no_write early_stop_step_def
      Let_def split: option.splits sum.splits)

lemma epoch_body_epoch_lines:
  "epoch_lines (console (fst (epoch_body args reader opt ob ep s)))
     = epoch_lines (console s) @ [ep]"
  by (simp add: epoch_body_def report_step_cases checkpoint_step_no_write early_stop_step_def
      epoch_lines_append epoch_lines_metric_lines
      Let_def split: option.splits sum.splits)

lemma train_loop_no_trial:
  "trial_h s = None \<Longrightarrow> trial_h (fst (train_loop args reader opt obs eps s)) = None"
proof (induction eps arbitrary: s)
  case Nil
  then show ?case by simp
next
  case (Cons ep eps)
  obtain s1 r where b: "epoch_body args reader opt (obs ep) ep s = (s1, r)"
    by (cases "epoch_body args reader opt (obs ep) ep s")
  then have "trial_h s1 = None"
    using epoch_body_trial [of args reader opt "obs ep" ep s] Cons.prems by simp
  then show ?case
    using Cons.IH [of s1] by (simp add: b split: sum.splits flow.splits)
qed

lemma train_loop_reports:
  assumes "trial_h s = Some t"
  shows "\<exists>k \<le> length eps.
           trial_h (fst (train_loop args reader opt obs eps s))
             = Some (t\<lparr>reports := reports t @ map (\<lambda>e. (fsub (Fin 1) (f1 s), e)) (take k eps)\<rparr>)
           \<and> epoch_lines (console (fst (train_loop args reader opt obs eps s)))
               = epoch_lines (console s) @ take k eps"
  using assms
proof (induction eps arbitrary: s t)
  case Nil
  then show ?case by simp
next
  case (Cons ep eps)
  let ?v = "fsub (Fin 1) (f1 s)"
  let ?t1 = "t\<lparr>reports := reports t @ [(?v, ep)]\<rparr>"
  obtain s1 r where b: "epoch_body args reader opt (obs ep) ep s = (s1, r)"
    by (cases "epoch_body args reader opt (obs ep) ep s")
  have t1: "trial_h s1 = Some ?t1"
    using epoch_body_trial [of args reader opt "obs ep" ep s] b Cons.prems
    by (simp add: trial_report_def)
  have f: "f1 s1 = f1 s"
    using epoch_body_f1 [of args reader opt "obs ep" ep s] b by simp
  have c1: "epoch_lines (console s1) = epoch_lines (console s) @ [ep]"
    using epoch_body_epoch_lines [of args reader opt "obs ep" ep s] b by simp
  show ?case
  proof (cases "r = Inr Continue")
    case True
    from Cons.IH [OF t1] obtain k where k: "k \<le> length eps"
      "trial_h (fst (train_loop args reader opt obs eps s1))
         = Some (?t1\<lparr>reports := reports ?t1 @ map (\<lambda>e. (fsub (Fin 1) (f1 s1), e)) (take k eps)\<rparr>)"
      "epoch_lines (console (fst (train_loop args reader opt obs eps s1)))
         = epoch_lines (console s1) @ take k eps"
      by blast
    have "train_loop args reader opt obs (ep # eps) s = train_loop args reader opt obs eps s1"
      using True by (simp add: b)
    then show ?thesis
      using k f c1 by (intro exI [of _ "Suc k"]) simp
  next
    case False
    then have "fst (train_loop args reader opt obs (ep # eps) s) = s1"
      by (cases r; simp add: b split: flow.splits)
    then show ?thesis
      using t1 c1 by (intro exI [of _ "Suc 0"]) simp
  qed
qed

lemma epoch_body_best_f1:
  "best_f1 (fst (epoch_body args reader opt ob ep s))
     = (if snd (epoch_body args reader opt ob ep s) = Inl TrialPruned then best_f1 s
        else if improved s then Some (f1 s) else best_f1 s)"
  by (auto simp: epoch_body_def report_step_cases checkpoint_step_no_write early_stop_step_def
      early_stop_cond_def improved_def Let_def split: option.splits sum.splits)

lemma epoch_body_pruned_epoch:
  "epoch (fst (epoch_body args reader opt ob ep s)) = Some ep"
  by (simp add: epoch_body_def report_step_cases checkpoint_step_no_write early_stop_step_def
      Let_def split: option.splits sum.splits)

lemma train_loop_best_f1_kept:
  assumes "best_f1 s = Some (f1 s)"
  shows "best_f1 (fst (train_loop args reader opt obs eps s)) = Some (f1 s)"
  using assms
proof (induction eps arbitrary: s)
  case Nil
  then show ?case by simp
next
  case (Cons ep eps)
  obtain s1 r where b: "epoch_body args reader opt (obs ep) ep s = (s1, r)"
    by (cases "epoch_body args reader opt (obs ep) ep s")
  have f: "f1 s1 = f1 s"
    using epoch_body_f1 [of args reader opt "obs ep" ep s] b by simp
  have "best_f1 s1 = Some (f1 s)"
    using epoch_body_best_f1 [of args reader opt "obs ep" ep s] b Cons.prems by simp
  then have k: "best_f1 s1 = Some (f1 s1)" using f by simp
  show ?case
    using Cons.IH [OF k] k f by (simp add: b split: sum.splits flow.splits)
qed

lemma epoch_body_errors:
  assumes "snd (epoch_body args reader opt ob ep s) = Inl e"
  shows "(e = TrialPruned \<and> trial_h s \<noteq> None) \<or> (e = TypeError \<and> accuracy (dev ob) = None)"
  using assms
  by (auto simp: epoch_body_def report_step_cases checkpoint_step_no_write early_stop_step_def
      early_stop_cond_def Let_def split: option.splits sum.splits if_splits)

lemma train_loop_errors:
  assumes "snd (train_loop args reader opt obs eps s) = Some e"
  shows "(e = TrialPruned \<and> trial_h s \<noteq> None)
       \<or> (e = TypeError \<and> (\<exists>ep \<in> set eps. accuracy (dev (obs ep)) = None))"
  using assms
proof (induction eps arbitrary: s)
  case Nil
  then show ?case by simp
next
  case (Cons ep eps)
  obtain s1 r where b: "epoch_body args reader opt (obs ep) ep s = (s1, r)"
    by (cases "epoch_body args reader opt (obs ep) ep s")
  show ?case
  proof (cases r)
    case (Inl e')
    then have "e = e'" using Cons.prems by (simp add: b)
    then show ?thesis
      using epoch_body_errors [of args reader opt "obs ep" ep s e'] b Inl by auto
  next
    case (Inr fl)
    show ?thesis
    proof (cases fl)
      case Continue
      then have "snd (train_loop args reader opt obs eps s1) = Some e"
        using Cons.prems Inr by (simp add: b)
      from Cons.IH [OF this] have "(e = TrialPruned \<and> trial_h s1 \<noteq> None)
         \<or> (e = TypeError \<and> (\<exists>ep \<in> set eps. accuracy (dev (obs ep)) = None))" .
      moreover have "trial_h s1 \<noteq> None \<Longrightarrow> trial_h s \<noteq> None"
        using epoch_body_trial [of args reader opt "obs ep" ep s] b
        by (auto split: option.splits)
      ultimately show ?thesis by auto
    next
      case Break
      then show ?thesis using Cons.prems Inr by (simp add: b)
    qed
  qed
qed

lemma u_train_loop:
  "fst (u_train args reader opt obs tr w)
     = fst (train_loop args reader opt obs [0..<max_epoch args] (init_state tr w))"
  "snd (u_train args reader opt obs tr w)
     = (case snd (train_loop args reader opt obs [0..<max_epoch args] (init_state tr w)) of
          Some e \<Rightarrow> Inl e
        | None \<Rightarrow> Inr (fsub (Fin 1)
            (f1 (fst (train_loop args reader opt obs [0..<max_epoch args] (init_state tr w))))))"
  by (cases "train_loop args reader opt obs [0..<max_epoch args] (init_state tr w)";
      simp add: u_train_def split: option.splits)+

lemma first_epoch_best_f1:
  assumes "0 < n" and "best_f1 s = None"
    and "\<not> (snd (train_loop args reader opt obs [0..<n] s) = Some TrialPruned
            \<and> epoch (fst (train_loop args reader opt obs [0..<n] s)) = Some 0)"
  shows "best_f1 (fst (train_loop args reader opt obs [0..<n] s)) = Some (f1 s)"
proof -
  let ?b0 = "epoch_body args reader opt (obs 0) 0 s"
  have e: "[0..<n] = 0 # [1..<n]"
    using assms(1) by (simp add: upt_conv_Cons)
  obtain s1 r0 where b: "?b0 = (s1, r0)" by (cases ?b0)
  have ep: "epoch s1 = Some 0"
    using epoch_body_pruned_epoch [of args reader opt "obs 0" 0 s] b by simp
  have np: "r0 \<noteq> Inl TrialPruned"
    using assms(3) ep unfolding e by (auto simp: b)
  have imp: "improved s" using assms(2) by (simp add: improved_def)
  have k: "best_f1 s1 = Some (f1 s)"
    using epoch_body_best_f1 [of args reader opt "obs 0" 0 s] b np imp by simp
  have f: "f1 s1 = f1 s"
    using epoch_body_f1 [of args reader opt "obs 0" 0 s] b by simp
  have "best_f1 (fst (train_loop args reader opt obs [1..<n] s1)) = Some (f1 s1)"
    using k f by (intro train_loop_best_f1_kept) simp
  then show ?thesis
    unfolding e using k f by (simp add: b split: sum.splits flow.splits)
qed

text \<open>
  Claim C2. \<open>f1\<close> is 0.0 at the start of \<open>_train\<close> and nothing assigns it, so for
  every run, whatever the dev and test scores of its epochs: \<open>f1\<close> is 0.0 at the end;
  every value reported to a trial is exactly 1.0 (one per epoch started); if the run has
  at least one epoch and is not pruned in its first epoch, \<open>best_f1\<close> is 0.0 from
  the first epoch on; and the run either returns exactly 1.0 or leaves with
  \<open>TrialPruned\<close> or \<open>TypeError\<close>. Without a trial and with numeric dev
  accuracies it returns 1.0.
\<close>

theorem train_f1_constant:
  assumes run: "u_train args reader opt obs tr w = (s', r)"
  shows "f1 s' = Fin 0
       \<and> (\<forall>t. tr = Some t \<longrightarrow>
            (\<exists>k \<le> max_epoch args.
               trial_h s' = Some (t\<lparr>reports := reports t @ map (\<lambda>e. (Fin 1, e)) [0..<k]\<rparr>)
               \<and> epoch_lines (console s') = [0..<k]))
       \<and> (0 < max_epoch args \<and> \<not> (r = Inl TrialPruned \<and> epoch s' = Some 0) \<longrightarrow>
            best_f1 s' = Some (Fin 0))
       \<and> (r = Inr (Fin 1) \<or> r = Inl TrialPruned \<or> r = Inl TypeError)
       \<and> (tr = None \<and> (\<forall>e < max_epoch args. accuracy (dev (obs e)) \<noteq> None) \<longrightarrow>
            r = Inr (Fin 1))"
proof -
  let ?n = "max_epoch args"
  let ?s0 = "init_state tr w"
  let ?loop = "train_loop args reader opt obs [0..<?n] ?s0"
  have s': "s' = fst ?loop"
    using u_train_loop(1) [of args reader opt obs tr w] run by simp
  have f0: "f1 ?s0 = Fin 0" by (simp add: init_state_def)
  have f: "f1 s' = Fin 0"
    unfolding s' using train_loop_f1 [of args reader opt obs "[0..<?n]" ?s0] f0 by simp
  have r: "r = (case snd ?loop of Some e \<Rightarrow> Inl e | None \<Rightarrow> Inr (Fin 1))"
    using u_train_loop(2) [of args reader opt obs tr w] run f s'
    by (simp split: option.splits)
  have rep: "\<forall>t. tr = Some t \<longrightarrow>
            (\<exists>k \<le> ?n.
               trial_h s' = Some (t\<lparr>reports := reports t @ map (\<lambda>e. (Fin 1, e)) [0..<k]\<rparr>)
               \<and> epoch_lines (console s') = [0..<k])"
  proof (intro allI impI)
    fix t assume "tr = Some t"
    then have "trial_h ?s0 = Some t" by (simp add: init_state_def)
    from train_loop_reports [OF this, of "[0..<?n]" args reader opt obs]
    obtain k where k: "k \<le> ?n"
      "trial_h s' = Some (t\<lparr>reports := reports t @ map (\<lambda>e. (fsub (Fin 1) (f1 ?s0), e))
                                           (take k [0..<?n])\<rparr>)"
      "epoch_lines (console s') = epoch_lines (console ?s0) @ take k [0..<?n]"
      unfolding s' by auto
    have "take k [0..<?n] = [0..<k]" using k(1) by (simp add: take_upt)
    then show "\<exists>k \<le> ?n.
               trial_h s' = Some (t\<lparr>reports := reports t @ map (\<lambda>e. (Fin 1, e)) [0..<k]\<rparr>)
               \<and> epoch_lines (console s') = [0..<k]"
      using k by (intro exI [of _ k]) (simp add: init_state_def)
  qed
  have best: "0 < ?n \<and> \<not> (r = Inl TrialPruned \<and> epoch s' = Some 0) \<longrightarrow>
            best_f1 s' = Some (Fin 0)"
  proof
    assume a: "0 < ?n \<and> \<not> (r = Inl TrialPruned \<and> epoch s' = Some 0)"
    then have "\<not> (snd ?loop = Some TrialPruned \<and> epoch (fst ?loop) = Some 0)"
      using r s' by auto
    from first_epoch_best_f1 [OF _ _ this] a show "best_f1 s' = Some (Fin 0)"
      unfolding s' by (simp add: init_state_def)
  qed
  have errs: "r = Inr (Fin 1) \<or> r = Inl TrialPruned \<or> r = Inl TypeError"
    using r train_loop_errors [of args reader opt obs "[0..<?n]" ?s0]
    by (auto split: option.splits)
  have ret: "tr = None \<and> (\<forall>e < ?n. accuracy (dev (obs e)) \<noteq> None) \<longrightarrow> r = Inr (Fin 1)"
    using r train_loop_errors [of args reader opt obs "[0..<?n]" ?s0]
    by (auto simp: init_state_def split: option.splits)
  show ?thesis
    using f rep best errs ret by blast
qed

theorem train_f1_constant_witness:
  "snd (u_train demo_args demo_reader demo_opt rising_obs None clean_world) = Inr (Fin 1)
   \<and> f1 (fst (u_train demo_args demo_reader demo_opt rising_obs None clean_world)) = Fin 0
   \<and> best_f1 (fst (u_train demo_args demo_reader demo_opt rising_obs None clean_world))
       = Some (Fin 0)
   \<and> f1_m (dev (rising_obs 0)) = Some (Fin 1)
   \<and> (\<exists>k \<le> max_epoch demo_args.
         trial_h (fst (u_train demo_args demo_reader demo_opt rising_obs (Some quiet_trial)
                         clean_world))
           = Some (quiet_trial\<lparr>reports := reports quiet_trial @ map (\<lambda>e. (Fin 1, e)) [0..<k]\<rparr>))"
proof -
  let ?run = "u_train demo_args demo_reader demo_opt rising_obs None clean_world"
  let ?runt = "u_train demo_args demo_reader demo_opt rising_obs (Some quiet_trial) clean_world"
  have n: "0 < max_epoch demo_args" by (simp add: demo_args_def)
  have a: "\<forall>e < max_epoch demo_args. accuracy (dev (rising_obs e)) \<noteq> None"
    by (simp add: rising_obs_def demo_metrics_def)
  have d: "f1_m (dev (rising_obs 0)) = Some (Fin 1)"
    by (simp add: rising_obs_def demo_metrics_def)
  have p: "?run = (fst ?run, snd ?run)" by simp
  have pt: "?runt = (fst ?runt, snd ?runt)" by simp
  from train_f1_constant [OF p] n a have 1: "snd ?run = Inr (Fin 1)"
    "f1 (fst ?run) = Fin 0" "best_f1 (fst ?run) = Some (Fin 0)"
    by auto
  from train_f1_constant [OF pt] have 2: "\<exists>k \<le> max_epoch demo_args.
         trial_h (fst ?runt)
           = Some (quiet_trial\<lparr>reports := reports quiet_trial @ map (\<lambda>e. (Fin 1, e)) [0..<k]\<rparr>)"
    by blast
  show ?thesis using 1 2 d by blast
qed

lemma epoch_body_pruned:
  assumes "trial_h s = Some t"
    and "pruner t (reports t @ [(fsub (Fin 1) (f1 s), ep)]) ep"
  shows "snd (epoch_body args reader opt ob ep s) = Inl TrialPruned"
    and "best_f1 (fst (epoch_body args reader opt ob ep s)) = best_f1 s"
    and "last_loss (fst (epoch_body args reader opt ob ep s)) = last_loss s"
    and "last_accuracy (fst (epoch_body args reader opt ob ep s)) = last_accuracy s"
    and "bad_count (fst (epoch_body args reader opt ob ep s)) = bad_count s"
  using assms
  by (simp_all add: epoch_body_def report_step_cases trial_should_prune_def trial_report_def
      Let_def)

text \<open>
  The mechanics of reporting and pruning, for every state. With a trial, an epoch
  appends one report at its own step, whose value is \<open>1.0 -\<close> the loop's variable
  \<open>f1\<close>. If the trial then asks to prune, the loop ends at once with
  \<open>TrialPruned\<close>: the checkpoint and early-stop rules of that epoch do not run and no
  later epoch starts. \<open>TrialPruned\<close> differs from every other exception. A pruner
  that prunes at every step ends a run of at least one epoch after one report.
\<close>

lemma pruning_ends_loop:
  assumes tr: "trial_h s = Some t"
  shows "trial_h (fst (epoch_body args reader opt (obs ep) ep s))
           = Some (t\<lparr>reports := reports t @ [(fsub (Fin 1) (f1 s), ep)]\<rparr>)
       \<and> (pruner t (reports t @ [(fsub (Fin 1) (f1 s), ep)]) ep \<longrightarrow>
            train_loop args reader opt obs (ep # rest) s
              = (fst (epoch_body args reader opt (obs ep) ep s), Some TrialPruned)
            \<and> best_f1 (fst (epoch_body args reader opt (obs ep) ep s)) = best_f1 s
            \<and> last_loss (fst (epoch_body args reader opt (obs ep) ep s)) = last_loss s
            \<and> last_accuracy (fst (epoch_body args reader opt (obs ep) ep s)) = last_accuracy s
            \<and> bad_count (fst (epoch_body args reader opt (obs ep) ep s)) = bad_count s)
       \<and> TrialPruned \<notin> set [ZeroDivisionError, LookupError, TypeError, ValueError, OSError]
       \<and> (0 < max_epoch args \<and> (\<forall>h k. pruner t0 h k) \<longrightarrow>
            snd (u_train args reader opt obs (Some t0) w) = Inl TrialPruned
            \<and> trial_h (fst (u_train args reader opt obs (Some t0) w))
                = Some (t0\<lparr>reports := reports t0 @ [(Fin 1, 0)]\<rparr>)
            \<and> epoch_lines (console (fst (u_train args reader opt obs (Some t0) w))) = [0])"
proof (intro conjI impI)
  let ?b = "epoch_body args reader opt (obs ep) ep s"
  show "trial_h (fst ?b) = Some (t\<lparr>reports := reports t @ [(fsub (Fin 1) (f1 s), ep)]\<rparr>)"
    using epoch_body_trial [of args reader opt "obs ep" ep s] tr by (simp add: trial_report_def)
  show "TrialPruned \<notin> set [ZeroDivisionError, LookupError, TypeError, ValueError, OSError]"
    by simp
  {
    assume p: "pruner t (reports t @ [(fsub (Fin 1) (f1 s), ep)]) ep"
    note pr = epoch_body_pruned [OF tr p, of args reader opt "obs ep"]
    show "train_loop args reader opt obs (ep # rest) s = (fst ?b, Some TrialPruned)"
      using pr(1) by (cases ?b) simp
    show "best_f1 (fst ?b) = best_f1 s" by (rule pr(2))
    show "last_loss (fst ?b) = last_loss s" by (rule pr(3))
    show "last_accuracy (fst ?b) = last_accuracy s" by (rule pr(4))
    show "bad_count (fst ?b) = bad_count s" by (rule pr(5))
  }
  assume a: "0 < max_epoch args \<and> (\<forall>h k. pruner t0 h k)"
  let ?s0 = "init_state (Some t0) w"
  let ?b0 = "epoch_body args reader opt (obs 0) 0 ?s0"
  have e: "[0..<max_epoch args] = 0 # [1..<max_epoch args]"
    using a by (simp add: upt_conv_Cons)
  have t0: "trial_h ?s0 = Some t0" and f0: "f1 ?s0 = Fin 0" and c0: "console ?s0 = []"
    by (simp_all add: init_state_def)
  have p0: "pruner t0 (reports t0 @ [(fsub (Fin 1) (f1 ?s0), 0)]) 0"
    using a by simp
  note pr = epoch_body_pruned [OF t0 p0, of args reader opt "obs 0"]
  have loop: "train_loop args reader opt obs [0..<max_epoch args] ?s0 = (fst ?b0, Some TrialPruned)"
    unfolding e using pr(1) by (cases ?b0) simp
  show "snd (u_train args reader opt obs (Some t0) w) = Inl TrialPruned"
    by (simp add: u_train_loop(2) loop)
  show "trial_h (fst (u_train args reader opt obs (Some t0) w))
          = Some (t0\<lparr>reports := reports t0 @ [(Fin 1, 0)]\<rparr>)"
    using epoch_body_trial [of args reader opt "obs 0" 0 ?s0] t0 f0
    by (simp add: u_train_loop(1) loop trial_report_def)
  show "epoch_lines (console (fst (u_train args reader opt obs (Some t0) w))) = [0]"
    using epoch_body_epoch_lines [of args reader opt "obs 0" 0 ?s0] c0
    by (simp add: u_train_loop(1) loop)
qed

lemma two_epoch_list: "[0..<2] = [0, Suc 0]"
  by code_simp

text \<open>
  Claim C1 (the code departs from it). On two epochs with dev F1 1/2 and then 4/5,
  \<open>best_f1\<close> at the end of the loop is 0.0, not 4/5: the test of the checkpoint rule
  compares \<open>best_f1\<close> with the variable \<open>f1\<close>, which stays 0.0, so the only
  improvement is the first epoch's, logged with the value 0.0; the run returns 1.0.
\<close>

theorem train_best_f1_stale:
  "f1_m (dev (improving_obs 0)) = Some (Fin (1 / 2))
   \<and> f1_m (dev (improving_obs 1)) = Some (Fin (4 / 5))
   \<and> snd (u_train two_epochs demo_reader demo_opt improving_obs None clean_world) = Inr (Fin 1)
   \<and> best_f1 (fst (u_train two_epochs demo_reader demo_opt improving_obs None clean_world))
        = Some (Fin 0)
   \<and> best_f1 (fst (u_train two_epochs demo_reader demo_opt improving_obs None clean_world))
        \<noteq> f1_m (dev (improving_obs 1))
   \<and> epoch_lines (console (fst (u_train two_epochs demo_reader demo_opt improving_obs None
                                   clean_world))) = [0, 1]
   \<and> best_f1_lines (console (fst (u_train two_epochs demo_reader demo_opt improving_obs None
                                     clean_world))) = [Fin 0]"
  by (simp add: u_train_def two_epochs_def demo_args_def two_epoch_list init_state_def
      epoch_body_def report_step_def checkpoint_step_def DISALLOW_WRITE_def improved_def
      early_stop_step_def early_stop_cond_def metric_lines_def
      improving_obs_def demo_metrics_def Let_def)

text \<open>
  Claim C5 (the code departs from it). The value reported to the trial is not 1 minus
  the epoch's F1. On two epochs with dev F1 1/2 and then 4/5 the objectives would be
  1/2 and 1/5; a trial that never prunes receives 1.0 at step 0 and 1.0 at step 1,
  because the reported value is computed from the variable \<open>f1\<close>, which stays 0.0.
  Pruning itself works on that constant: a trial that prunes at every step ends the
  run with \<open>TrialPruned\<close> after the one report of step 0, and a trial that prunes
  from step 1 on ends it with \<open>TrialPruned\<close> after the reports of steps 0 and 1
  (steps are the epoch numbers, counted from 0).
\<close>

theorem trial_objective_stale:
  "spec_objective (improving_obs 0) = Some (Fin (1 / 2))
   \<and> spec_objective (improving_obs 1) = Some (Fin (1 / 5))
   \<and> map_option reports
         (trial_h (fst (u_train two_epochs demo_reader demo_opt improving_obs
                          (Some quiet_trial) clean_world)))
       = Some [(Fin 1, 0), (Fin 1, 1)]
   \<and> snd (u_train two_epochs demo_reader demo_opt improving_obs (Some quiet_trial) clean_world)
       = Inr (Fin 1)
   \<and> map_option reports
         (trial_h (fst (u_train two_epochs demo_reader demo_opt improving_obs
                          (Some always_trial) clean_world)))
       = Some [(Fin 1, 0)]
   \<and> snd (u_train two_epochs demo_reader demo_opt improving_obs (Some always_trial) clean_world)
       = Inl TrialPruned
   \<and> map_option reports
         (trial_h (fst (u_train two_epochs demo_reader demo_opt improving_obs
                          (Some late_trial) clean_world)))
       = Some [(Fin 1, 0), (Fin 1, 1)]
   \<and> snd (u_train two_epochs demo_reader demo_opt improving_obs (Some late_trial) clean_world)
       = Inl TrialPruned"
  by (simp add: spec_objective_def u_train_def two_epochs_def demo_args_def two_epoch_list
      init_state_def epoch_body_def report_step_def trial_report_def trial_should_prune_def
      quiet_trial_def always_trial_def late_trial_def
      checkpoint_step_def DISALLOW_WRITE_def improved_def
      early_stop_step_def early_stop_cond_def metric_lines_def
      improving_obs_def demo_metrics_def Let_def)

end
